theory Spec2Isabelle
  imports Complex_Main
begin

section \<open>JavaScript values, strings and exceptions\<close>

text \<open>
  The session-summary endpoint (\<^verbatim>\<open>pages/api/session-summary.ts\<close>, streaming version)
  works on untyped values: the result of \<^verbatim>\<open>JSON.parse\<close> and the decoded form fields.
  A value is modelled by the datatype below; \<^verbatim>\<open>undefined\<close> is \<open>None\<close> of an option.
  An object is the list of its own properties; \<open>map_of\<close> reads a property. The numeric
  value of a number is never inspected by the code.
\<close>

datatype jsval =
    VNull
  | VBool bool
  | VNumber rat
  | VString string
  | VArray "jsval list"
  | VObject "(string \<times> jsval) list"

text \<open>
  A thrown value: \<open>Error m\<close> is \<^verbatim>\<open>new Error(m)\<close> (also a rejection of a library call
  with message \<open>m\<close>), \<open>TypeError\<close> and \<open>SyntaxError\<close> are raised by the engine (their
  message is the engine's wording), \<open>NonError\<close> is a thrown value that is not an instance
  of \<^verbatim>\<open>Error\<close>.
\<close>

datatype thrown = Error string | TypeError | SyntaxError | NonError

text \<open>
  Property access \<^verbatim>\<open>v.k\<close> for the property names the code reads (\<^verbatim>\<open>players\<close>,
  \<^verbatim>\<open>dmSummary\<close>, \<^verbatim>\<open>name\<close>, \<^verbatim>\<open>points\<close>; none of them is a built-in property of a
  string, an array or \<^verbatim>\<open>Object.prototype\<close>): reading a property of \<^verbatim>\<open>null\<close> throws a
  TypeError, a primitive or an array has no such property.
\<close>

fun getProp :: "jsval \<Rightarrow> string \<Rightarrow> thrown + jsval option" where
  "getProp VNull k = Inl TypeError"
| "getProp (VObject kvs) k = Inr (map_of kvs k)"
| "getProp v k = Inr None"

text \<open>
  Strings are lists of 8-bit code units (read as Latin-1). \<^verbatim>\<open>String.prototype.trim\<close>
  strips white space and line terminators from both ends; in this range they are
  TAB, LF, VT, FF, CR, SP and NBSP.
\<close>

definition isWhiteSpace :: "char \<Rightarrow> bool" where
  "isWhiteSpace c = ((of_char c :: nat) \<in> {9, 10, 11, 12, 13, 32, 160})"

definition trim :: "string \<Rightarrow> string" where
  "trim s = rev (dropWhile isWhiteSpace (rev (dropWhile isWhiteSpace s)))"

text \<open>
  \<^verbatim>\<open>toLowerCase\<close>: the upper-case letters of the range are A-Z (65-90) and the Latin-1
  letters 192-222 without the multiplication sign 215; the lower-case letter is 32 above,
  which for these code units is the same as setting bit 5.
\<close>

definition toLowerCase_char :: "char \<Rightarrow> char" where
  "toLowerCase_char c =
     (let n = (of_char c :: nat)
      in if (65 \<le> n \<and> n \<le> 90) \<or> (192 \<le> n \<and> n \<le> 222 \<and> n \<noteq> 215)
         then (case c of Char b0 b1 b2 b3 b4 b5 b6 b7 \<Rightarrow> Char b0 b1 b2 b3 b4 True b6 b7)
         else c)"

definition toLowerCase :: "string \<Rightarrow> string" where
  "toLowerCase s = map toLowerCase_char s"

definition endsWith :: "string \<Rightarrow> string \<Rightarrow> bool" where
  "endsWith s suf = (length suf \<le> length s \<and> drop (length s - length suf) s = suf)"

text \<open>
  A \<^verbatim>\<open>Set\<close> of strings keeps its elements in insertion order without repetition:
  it is modelled as the list of its elements in that order.
\<close>

definition set_add :: "string \<Rightarrow> string list \<Rightarrow> string list" where
  "set_add x s = (if x \<in> set s then s else s @ [x])"

definition newSet :: "string list \<Rightarrow> string list" where
  "newSet xs = foldl (\<lambda>s x. set_add x s) [] xs"

definition set_delete :: "string \<Rightarrow> string list \<Rightarrow> string list" where
  "set_delete x s = filter (\<lambda>y. y \<noteq> x) s"

section \<open>parseSummaries\<close>

record PlayerSummary =
  name :: string
  points :: "string list"

record ParsedSummaryResult =
  overallSummary :: string
  summaries :: "PlayerSummary list"

text \<open>
  The type guard of the entry filter,
  \<^verbatim>\<open>typeof entry.name === "string" && Array.isArray(entry.points)\<close>: it returns the
  narrowed entry (its name and its points array) when the entry is kept, \<open>None\<close> when it
  is dropped, and throws when the entry is \<^verbatim>\<open>null\<close>.
\<close>

definition entryGuard :: "jsval \<Rightarrow> thrown + (string \<times> jsval list) option" where
  "entryGuard entry =
     (case getProp entry ''name'' of
        Inl e \<Rightarrow> Inl e
      | Inr (Some (VString n)) \<Rightarrow>
          (case getProp entry ''points'' of
             Inl e \<Rightarrow> Inl e
           | Inr (Some (VArray ps)) \<Rightarrow> Inr (Some (n, ps))
           | Inr _ \<Rightarrow> Inr None)
      | Inr _ \<Rightarrow> Inr None)"

fun filterEntries :: "jsval list \<Rightarrow> thrown + (string \<times> jsval list) list" where
  "filterEntries [] = Inr []"
| "filterEntries (entry # rest) =
     (case entryGuard entry of
        Inl e \<Rightarrow> Inl e
      | Inr g \<Rightarrow>
          (case filterEntries rest of
             Inl e \<Rightarrow> Inl e
           | Inr kept \<Rightarrow> Inr (case g of None \<Rightarrow> kept | Some v \<Rightarrow> v # kept)))"

text \<open>The point filter \<^verbatim>\<open>typeof point === "string" && point.trim().length > 0\<close>.\<close>

fun pointGuard :: "jsval \<Rightarrow> string option" where
  "pointGuard (VString p) = (if length (trim p) > 0 then Some p else None)"
| "pointGuard v = None"

definition entrySummary :: "string \<times> jsval list \<Rightarrow> PlayerSummary" where
  "entrySummary e =
     \<lparr>name = fst e, points = map trim (List.map_filter pointGuard (snd e))\<rparr>"

definition noSummaryText :: string where
  "noSummaryText = ''No summary was generated for this player.''"

definition noOverallText :: string where
  "noOverallText =
     ''The AI response did not include an overall summary for the Dungeon Master.''"

definition unparsedText :: string where
  "unparsedText = ''The AI response could not be parsed.''"

definition placeholder :: "string \<Rightarrow> string \<Rightarrow> PlayerSummary" where
  "placeholder txt n = \<lparr>name = n, points = [txt]\<rparr>"

text \<open>
  The reconciliation loop: every summary's name is deleted from the set of roster names,
  and one entry is pushed for each name that is left.
\<close>

definition missingPlayers :: "string list \<Rightarrow> PlayerSummary list \<Rightarrow> string list" where
  "missingPlayers players sms = foldl (\<lambda>s summary. set_delete (name summary) s) (newSet players) sms"

definition reconcile :: "string list \<Rightarrow> PlayerSummary list \<Rightarrow> PlayerSummary list" where
  "reconcile players sms =
     (let missing = missingPlayers players sms
      in if length missing > 0 then sms @ map (placeholder noSummaryText) missing else sms)"

definition dmSummaryOf :: "jsval option \<Rightarrow> string" where
  "dmSummaryOf v =
     (case v of
        Some (VString d) \<Rightarrow> (if length (trim d) > 0 then trim d else noOverallText)
      | _ \<Rightarrow> noOverallText)"

text \<open>
  The body of the \<^verbatim>\<open>try\<close> block. \<open>JSON_parse\<close> is the platform's \<^verbatim>\<open>JSON.parse\<close>, a
  parameter of the model: \<open>None\<close> is its SyntaxError.
\<close>

definition parseSummaries_try ::
  "(string \<Rightarrow> jsval option) \<Rightarrow> string \<Rightarrow> string list \<Rightarrow> thrown + ParsedSummaryResult" where
  "parseSummaries_try JSON_parse raw players =
     (case JSON_parse raw of
        None \<Rightarrow> Inl SyntaxError
      | Some parsed \<Rightarrow>
          (case getProp parsed ''players'' of
             Inl e \<Rightarrow> Inl e
           | Inr (Some (VArray entries)) \<Rightarrow>
               (case filterEntries entries of
                  Inl e \<Rightarrow> Inl e
                | Inr kept \<Rightarrow>
                    (case getProp parsed ''dmSummary'' of
                       Inl e \<Rightarrow> Inl e
                     | Inr dm \<Rightarrow>
                         Inr \<lparr>overallSummary = dmSummaryOf dm,
                              summaries = reconcile players (map entrySummary kept)\<rparr>))
           | Inr _ \<Rightarrow> Inl (Error ''Invalid response shape'')))"

text \<open>The \<^verbatim>\<open>catch\<close> block: it logs and returns the fallback result.\<close>

definition parseSummaries_catch :: "string list \<Rightarrow> thrown + ParsedSummaryResult" where
  "parseSummaries_catch players =
     Inr \<lparr>overallSummary = unparsedText, summaries = map (placeholder unparsedText) players\<rparr>"

definition parseSummaries ::
  "(string \<Rightarrow> jsval option) \<Rightarrow> string \<Rightarrow> string list \<Rightarrow> thrown + ParsedSummaryResult" where
  "parseSummaries JSON_parse raw players =
     (case parseSummaries_try JSON_parse raw players of
        Inr result \<Rightarrow> Inr result
      | Inl e \<Rightarrow> parseSummaries_catch players)"

section \<open>Audio extension resolution\<close>

text \<open>
  The character class \<^verbatim>\<open>[a-z0-9]\<close> under the \<^verbatim>\<open>i\<close> flag: digits and ASCII letters of
  either case.
\<close>

definition isAlnum :: "char \<Rightarrow> bool" where
  "isAlnum c =
     (let n = (of_char c :: nat)
      in (48 \<le> n \<and> n \<le> 57) \<or> (65 \<le> n \<and> n \<le> 90) \<or> (97 \<le> n \<and> n \<le> 122))"

text \<open>
  \<^verbatim>\<open>/\.([a-z0-9]+)$/i.exec(fileName)\<close>: the pattern is tried at every start position
  from the left. At one position it needs a dot and then one or more class characters
  up to the end of the input; the result is capture group 1.
\<close>

fun matchAt :: "string \<Rightarrow> string option" where
  "matchAt [] = None"
| "matchAt (c # rest) =
     (if c = CHR ''.'' \<and> rest \<noteq> [] \<and> list_all isAlnum rest then Some rest else None)"

fun regexExec :: "string \<Rightarrow> string option" where
  "regexExec [] = None"
| "regexExec (c # rest) =
     (case matchAt (c # rest) of Some g \<Rightarrow> Some g | None \<Rightarrow> regexExec rest)"

definition extensionFromFilename :: "string option \<Rightarrow> string" where
  "extensionFromFilename fileName =
     (case fileName of
        None \<Rightarrow> []
      | Some f \<Rightarrow>
          if f = [] then []
          else (case regexExec f of None \<Rightarrow> [] | Some g \<Rightarrow> toLowerCase g))"

definition mimeTable :: "(string \<times> string) list" where
  "mimeTable =
     [(''audio/mpeg'', ''mp3''), (''audio/mp3'', ''mp3''), (''audio/wav'', ''wav''),
      (''audio/x-wav'', ''wav''), (''audio/webm'', ''webm''), (''audio/ogg'', ''ogg''),
      (''audio/aac'', ''aac''), (''audio/mp4'', ''m4a''), (''audio/x-m4a'', ''m4a''),
      (''audio/flac'', ''flac'')]"

text \<open>
  The table is an object literal, and \<^verbatim>\<open>map[key]\<close> also finds what every object
  inherits. Of the inherited property names only \<^verbatim>\<open>constructor\<close> and \<^verbatim>\<open>__proto__\<close>
  are in lower case, so only they can be met by a lower-cased key. Their values are a
  function and an object: not nullish, so \<^verbatim>\<open>?? ""\<close> keeps them, and truthy. The
  caller only tests the result for truthiness and puts it into a template string, so
  such a value is carried as the text the template string gives it.
\<close>

definition inheritedProperties :: "(string \<times> string) list" where
  "inheritedProperties =
     [(''constructor'', ''function Object() { [native code] }''),
      (''__proto__'', ''[object Object]'')]"

text \<open>
  The table is read at the lower-cased declared type; a key that is neither listed nor
  inherited gives the empty string.
\<close>

definition extensionFromMime :: "string option \<Rightarrow> string" where
  "extensionFromMime mimeType =
     (case mimeType of
        None \<Rightarrow> []
      | Some m \<Rightarrow>
          if m = [] then []
          else (case map_of (mimeTable @ inheritedProperties) (toLowerCase m) of
                  None \<Rightarrow> []
                | Some e \<Rightarrow> e))"

text \<open>The uploaded file handle of the multipart library (\<^verbatim>\<open>size\<close> is \<open>size_bytes\<close>).\<close>

record formFile =
  filepath :: string
  originalFilename :: "string option"
  mimetype :: "string option"
  size_bytes :: nat

text \<open>
  The temp storage: the size in bytes of every file that exists, whether the storage
  refuses a rename (as across devices) or a copy, and the log of the operations the
  handler has issued. An operation on a missing path fails; \<^verbatim>\<open>unlink\<close> of an
  existing file removes it. The message of a storage error is shortened to its code.
\<close>

datatype fsop = Rename string string | CopyFile string string | Unlink string | Stat string

record fsys =
  files :: "string \<rightharpoonup> nat"
  renameFails :: bool
  copyFails :: bool
  fslog :: "fsop list"

definition fs_rename :: "string \<Rightarrow> string \<Rightarrow> fsys \<Rightarrow> (thrown + unit) \<times> fsys" where
  "fs_rename src dst d =
     (let d1 = d\<lparr>fslog := fslog d @ [Rename src dst]\<rparr>
      in case files d src of
           None \<Rightarrow> (Inl (Error ''ENOENT''), d1)
         | Some n \<Rightarrow>
             if renameFails d then (Inl (Error ''EXDEV''), d1)
             else (Inr (), d1\<lparr>files := (files d)(src := None, dst \<mapsto> n)\<rparr>))"

definition fs_copyFile :: "string \<Rightarrow> string \<Rightarrow> fsys \<Rightarrow> (thrown + unit) \<times> fsys" where
  "fs_copyFile src dst d =
     (let d1 = d\<lparr>fslog := fslog d @ [CopyFile src dst]\<rparr>
      in case files d src of
           None \<Rightarrow> (Inl (Error ''ENOENT''), d1)
         | Some n \<Rightarrow>
             if copyFails d then (Inl (Error ''EIO''), d1)
             else (Inr (), d1\<lparr>files := (files d)(dst \<mapsto> n)\<rparr>))"

definition fs_unlink :: "string \<Rightarrow> fsys \<Rightarrow> (thrown + unit) \<times> fsys" where
  "fs_unlink p d =
     (let d1 = d\<lparr>fslog := fslog d @ [Unlink p]\<rparr>
      in case files d p of
           None \<Rightarrow> (Inl (Error ''ENOENT''), d1)
         | Some n \<Rightarrow> (Inr (), d1\<lparr>files := (files d)(p := None)\<rparr>))"

definition fs_stat :: "string \<Rightarrow> fsys \<Rightarrow> (thrown + nat) \<times> fsys" where
  "fs_stat p d =
     (let d1 = d\<lparr>fslog := fslog d @ [Stat p]\<rparr>
      in case files d p of
           None \<Rightarrow> (Inl (Error ''ENOENT''), d1)
         | Some n \<Rightarrow> (Inr n, d1))"

text \<open>\<^verbatim>\<open>fsPromises.unlink(p).catch(() => undefined)\<close>: the error is dropped.\<close>

definition unlinkQuietly :: "string \<Rightarrow> fsys \<Rightarrow> fsys" where
  "unlinkQuietly p d = snd (fs_unlink p d)"

definition resolvedExtension :: "formFile \<Rightarrow> string" where
  "resolvedExtension file =
     (let nameExt = extensionFromFilename (originalFilename file);
          mimeExt = extensionFromMime (mimetype file)
      in if nameExt \<noteq> [] then nameExt else mimeExt)"

definition ensureExtensionOnPath :: "formFile \<Rightarrow> fsys \<Rightarrow> (thrown + string) \<times> fsys" where
  "ensureExtensionOnPath file d =
     (let extension = resolvedExtension file
      in if extension = [] then (Inr (filepath file), d)
         else if endsWith (toLowerCase (filepath file)) (''.'' @ extension)
         then (Inr (filepath file), d)
         else
           (let newPath = filepath file @ ''.'' @ extension
            in case fs_rename (filepath file) newPath d of
                 (Inr u, d1) \<Rightarrow> (Inr newPath, d1)
               | (Inl renameError, d1) \<Rightarrow>
                   (case fs_copyFile (filepath file) newPath d1 of
                      (Inl e, d2) \<Rightarrow> (Inl e, d2)
                    | (Inr u, d2) \<Rightarrow> (Inr newPath, unlinkQuietly (filepath file) d2))))"

section \<open>The response and the frame emitter\<close>

text \<open>
  The text of an error frame or error body. \<^verbatim>\<open>error.message\<close> of an engine error is
  the engine's wording, kept as \<open>EngineMessage\<close>.
\<close>

datatype message = Text string | EngineMessage thrown

text \<open>\<^verbatim>\<open>error instanceof Error ? error.message : "Unexpected error"\<close>\<close>

fun errorMessage :: "thrown \<Rightarrow> message" where
  "errorMessage (Error m) = Text m"
| "errorMessage NonError = Text ''Unexpected error''"
| "errorMessage e = EngineMessage e"

text \<open>The result payload (\<^verbatim>\<open>summaries\<close> is \<open>payload_summaries\<close>).\<close>

record SessionSummaryResponse =
  transcript :: string
  dmSummary :: string
  payload_summaries :: "PlayerSummary list"

text \<open>
  One line of the streamed body: the object handed to \<^verbatim>\<open>writeLine\<close>, by its
  \<^verbatim>\<open>type\<close>. A progress frame carries its message and its extra fields.
\<close>

datatype frame =
    Progress string "(string \<times> jsval) list"
  | Result SessionSummaryResponse
  | ErrorFrame message

fun isTerminal :: "frame \<Rightarrow> bool" where
  "isTerminal (Progress m meta) = False"
| "isTerminal (Result p) = True"
| "isTerminal (ErrorFrame m) = True"

text \<open>
  The HTTP response object: the headers the handler sets, the status code, the body sent by
  \<^verbatim>\<open>res.json\<close> (always of the shape \<^verbatim>\<open>{error: message}\<close> here), the lines written by
  \<^verbatim>\<open>res.write\<close>, and whether \<^verbatim>\<open>res.end\<close> has been called.
\<close>

record response =
  headers :: "(string \<times> string) list"
  statusCode :: nat
  jsonBody :: "message option"
  frames :: "frame list"
  writableEnded :: bool

definition setHeader :: "string \<Rightarrow> string \<Rightarrow> response \<Rightarrow> response" where
  "setHeader k v r = r\<lparr>headers := headers r @ [(k, v)]\<rparr>"

definition status :: "nat \<Rightarrow> response \<Rightarrow> response" where
  "status code r = r\<lparr>statusCode := code\<rparr>"

definition json_error :: "message \<Rightarrow> response \<Rightarrow> response" where
  "json_error m r = r\<lparr>jsonBody := Some m, writableEnded := True\<rparr>"

datatype call = TranscriptionCall string | CompletionCall "string list" string

text \<open>
  The state a request runs in: the response, the handler's local flag
  \<^verbatim>\<open>responseEnded\<close>, the temp storage, and the calls made to the external services.
\<close>

record hstate =
  res :: response
  responseEnded :: bool
  disk :: fsys
  network :: "call list"

definition writeLine :: "frame \<Rightarrow> hstate \<Rightarrow> hstate" where
  "writeLine payload s =
     (if responseEnded s \<or> writableEnded (res s) then s
      else s\<lparr>res := (res s)\<lparr>frames := frames (res s) @ [payload]\<rparr>\<rparr>)"

definition endResponse :: "hstate \<Rightarrow> hstate" where
  "endResponse s =
     (if \<not> responseEnded s \<and> \<not> writableEnded (res s)
      then s\<lparr>responseEnded := True, res := (res s)\<lparr>writableEnded := True\<rparr>\<rparr>
      else s)"

definition sendProgress :: "string \<Rightarrow> (string \<times> jsval) list \<Rightarrow> hstate \<Rightarrow> hstate" where
  "sendProgress m meta s = writeLine (Progress m meta) s"

definition sendError :: "message \<Rightarrow> hstate \<Rightarrow> hstate" where
  "sendError m s = endResponse (writeLine (ErrorFrame m) s)"

definition sendResult :: "SessionSummaryResponse \<Rightarrow> hstate \<Rightarrow> hstate" where
  "sendResult payload s = endResponse (writeLine (Result payload) s)"

text \<open>A call of one of the three senders, and a sequence of such calls.\<close>

datatype emit = EmitProgress string "(string \<times> jsval) list"
  | EmitError message
  | EmitResult SessionSummaryResponse

fun emit1 :: "emit \<Rightarrow> hstate \<Rightarrow> hstate" where
  "emit1 (EmitProgress m meta) s = sendProgress m meta s"
| "emit1 (EmitError m) s = sendError m s"
| "emit1 (EmitResult p) s = sendResult p s"

definition emitAll :: "emit list \<Rightarrow> hstate \<Rightarrow> hstate" where
  "emitAll es s = foldl (\<lambda>t e. emit1 e t) s es"

section \<open>The request handler\<close>

datatype fileField = OneFile formFile | FileArray "formFile list"

text \<open>
  The decoded multipart form: \<^verbatim>\<open>fields.players\<close>, \<^verbatim>\<open>files.audio\<close> and
  \<^verbatim>\<open>files.file\<close>.
\<close>

record form =
  fields_players :: "jsval option"
  files_audio :: "fileField option"
  files_file :: "fileField option"

text \<open>
  What a request brings and what the outside world answers to it: the HTTP method, the
  credential in the process environment, the temp files the multipart library writes
  while it decodes the body, the outcome of the decoding, the transcription service's
  answer (the \<^verbatim>\<open>text\<close> property of the response, \<open>None\<close> when it has none) and the
  completion service's answer (\<^verbatim>\<open>choices[0]?.message?.content\<close>). The field
  \<^verbatim>\<open>req.method\<close> is \<open>req_method\<close>.
\<close>

record request =
  req_method :: string
  OPENAI_KEY :: "string option"
  uploads :: "(string \<times> nat) list"
  multipart :: "thrown + form"
  transcription :: "thrown + jsval option"
  completion :: "thrown + string option"

definition ensureEnv :: "request \<Rightarrow> thrown + unit" where
  "ensureEnv rq =
     (case OPENAI_KEY rq of
        None \<Rightarrow> Inl (Error ''OPENAI_KEY is not configured'')
      | Some k \<Rightarrow> if k = [] then Inl (Error ''OPENAI_KEY is not configured'') else Inr ())"

definition storeUploads :: "(string \<times> nat) list \<Rightarrow> fsys \<Rightarrow> fsys" where
  "storeUploads us d = d\<lparr>files := foldl (\<lambda>m u. m(fst u \<mapsto> snd u)) (files d) us\<rparr>"

definition parseMultipart :: "request \<Rightarrow> hstate \<Rightarrow> (thrown + form) \<times> hstate" where
  "parseMultipart rq s = (multipart rq, s\<lparr>disk := storeUploads (uploads rq) (disk s)\<rparr>)"

text \<open>
  Roster normalization. A string field that decodes to a JSON array is replaced by the
  elements of the array, whatever they are.
\<close>

definition decodeEntry :: "(string \<Rightarrow> jsval option) \<Rightarrow> jsval \<Rightarrow> jsval list" where
  "decodeEntry JSON_parse entry =
     (case entry of
        VString e \<Rightarrow> (case JSON_parse e of Some (VArray parsed) \<Rightarrow> parsed | _ \<Rightarrow> [entry])
      | _ \<Rightarrow> [])"

definition playerNamesOf :: "(string \<Rightarrow> jsval option) \<Rightarrow> jsval option \<Rightarrow> jsval list" where
  "playerNamesOf JSON_parse playersField =
     (case playersField of
        Some (VArray entries) \<Rightarrow> concat (map (decodeEntry JSON_parse) entries)
      | Some (VString f) \<Rightarrow>
          (case JSON_parse f of Some (VArray parsed) \<Rightarrow> parsed | _ \<Rightarrow> [VString f])
      | _ \<Rightarrow> [])"

text \<open>
  \<^verbatim>\<open>playerNames.map((player) => player.trim())\<close>: calling \<^verbatim>\<open>trim\<close> on a value that is
  not a string throws a TypeError.
\<close>

fun trimAll :: "jsval list \<Rightarrow> thrown + string list" where
  "trimAll [] = Inr []"
| "trimAll (VString p # rest) =
     (case trimAll rest of Inl e \<Rightarrow> Inl e | Inr ts \<Rightarrow> Inr (trim p # ts))"
| "trimAll (v # rest) = Inl TypeError"

definition cleanedPlayersOf :: "jsval list \<Rightarrow> thrown + string list" where
  "cleanedPlayersOf playerNames =
     (case trimAll playerNames of
        Inl e \<Rightarrow> Inl e
      | Inr ts \<Rightarrow> Inr (filter (\<lambda>player. length player > 0) ts))"

definition audioFileOf :: "form \<Rightarrow> formFile option" where
  "audioFileOf f =
     (case (case files_audio f of Some a \<Rightarrow> Some a | None \<Rightarrow> files_file f) of
        None \<Rightarrow> None
      | Some (OneFile x) \<Rightarrow> Some x
      | Some (FileArray xs) \<Rightarrow> (case xs of [] \<Rightarrow> None | x # rest \<Rightarrow> Some x))"

text \<open>
  How a stage inside the handler's outer \<^verbatim>\<open>try\<close> leaves: it goes on with a value, it
  has executed \<^verbatim>\<open>return\<close>, or it has thrown.
\<close>

datatype 'a outcome = Next 'a | Returned | Thrown thrown

text \<open>From the start of the \<^verbatim>\<open>try\<close> block to the check of the audio part.\<close>

definition ingest ::
  "(string \<Rightarrow> jsval option) \<Rightarrow> request \<Rightarrow> hstate \<Rightarrow> (string list \<times> formFile) outcome \<times> hstate" where
  "ingest JSON_parse rq s =
     (case parseMultipart rq (sendProgress ''Parsing upload'' [] s) of
        (Inl e, s1) \<Rightarrow> (Thrown e, s1)
      | (Inr f, s1) \<Rightarrow>
          (let playerNames = playerNamesOf JSON_parse (fields_players f)
           in if length playerNames = 0
              then (Returned, sendError (Text ''At least one player name is required'') s1)
              else
                (case cleanedPlayersOf playerNames of
                   Inl e \<Rightarrow> (Thrown e, s1)
                 | Inr cleanedPlayers \<Rightarrow>
                     if length cleanedPlayers = 0
                     then (Returned, sendError (Text ''Player names cannot be empty'') s1)
                     else
                       (case audioFileOf f of
                          None \<Rightarrow> (Returned, sendError (Text ''Audio file is required'') s1)
                        | Some audioFile \<Rightarrow>
                            if filepath audioFile = []
                            then (Returned, sendError (Text ''Audio file is required'') s1)
                            else (Next (cleanedPlayers, audioFile), s1)))))"

text \<open>
  The inner \<^verbatim>\<open>try\<close> block of the transcription and its \<^verbatim>\<open>finally\<close>. The file name
  hint passed along with the read stream only reaches the external service.
\<close>

definition transcribe_try :: "request \<Rightarrow> string \<Rightarrow> hstate \<Rightarrow> (thrown + string) \<times> hstate" where
  "transcribe_try rq readablePath s =
     (case fs_stat readablePath (disk s) of
        (Inl e, d) \<Rightarrow> (Inl e, s\<lparr>disk := d\<rparr>)
      | (Inr sz, d) \<Rightarrow>
          if sz = 0 then (Inl (Error ''Uploaded audio file is empty''), s\<lparr>disk := d\<rparr>)
          else
            (let s1 = sendProgress ''Transcribing audio - this may take a while''
                        [(''step'', VString ''transcription'')] (s\<lparr>disk := d\<rparr>);
                 s2 = s1\<lparr>network := network s1 @ [TranscriptionCall readablePath]\<rparr>
             in case transcription rq of
                  Inl e \<Rightarrow> (Inl e, s2)
                | Inr (Some (VString t)) \<Rightarrow>
                    (Inr (trim t),
                     sendProgress ''Transcription complete''
                       [(''step'', VString ''transcription''),
                        (''transcriptLength'', VNumber (of_nat (length (trim t))))] s2)
                | Inr _ \<Rightarrow> (Inl (Error ''Transcription response missing text field''), s2)))"

definition transcribe :: "request \<Rightarrow> string \<Rightarrow> hstate \<Rightarrow> (thrown + string) \<times> hstate" where
  "transcribe rq readablePath s =
     (case transcribe_try rq readablePath s of
        (r, s1) \<Rightarrow> (r, s1\<lparr>disk := unlinkQuietly readablePath (disk s1)\<rparr>))"

text \<open>From the transcript to the result frame.\<close>

definition summarise ::
  "(string \<Rightarrow> jsval option) \<Rightarrow> request \<Rightarrow> string list \<Rightarrow> string \<Rightarrow> hstate \<Rightarrow> unit outcome \<times> hstate" where
  "summarise JSON_parse rq cleanedPlayers transcriptText s =
     (if transcriptText = [] then (Returned, sendError (Text ''Transcription failed'') s)
      else
        (let s1 = sendProgress ''Generating player summaries'' [(''step'', VString ''summaries'')] s;
             s2 = s1\<lparr>network := network s1 @ [CompletionCall cleanedPlayers transcriptText]\<rparr>
         in case completion rq of
              Inl e \<Rightarrow> (Thrown e, s2)
            | Inr None \<Rightarrow> (Returned, sendError (Text ''No summary returned by model'') s2)
            | Inr (Some content) \<Rightarrow>
                if content = []
                then (Returned, sendError (Text ''No summary returned by model'') s2)
                else
                  (case parseSummaries JSON_parse content cleanedPlayers of
                     Inl e \<Rightarrow> (Thrown e, s2)
                   | Inr parsed \<Rightarrow>
                       (let responsePayload =
                              \<lparr>transcript = transcriptText,
                               dmSummary = overallSummary parsed,
                               payload_summaries = summaries parsed\<rparr>;
                            s3 = sendProgress ''Summaries ready''
                                   [(''step'', VString ''summaries''),
                                    (''summaryCount'', VNumber (of_nat (length (summaries parsed))))]
                                   s2
                        in (Next (), sendResult responsePayload s3)))))"

text \<open>The outer \<^verbatim>\<open>try\<close> block.\<close>

definition handler_try ::
  "(string \<Rightarrow> jsval option) \<Rightarrow> request \<Rightarrow> hstate \<Rightarrow> unit outcome \<times> hstate" where
  "handler_try JSON_parse rq s =
     (case ingest JSON_parse rq s of
        (Thrown e, s1) \<Rightarrow> (Thrown e, s1)
      | (Returned, s1) \<Rightarrow> (Returned, s1)
      | (Next (cleanedPlayers, audioFile), s1) \<Rightarrow>
          (let s2 = sendProgress ''Preparing audio for transcription'' [] s1
           in case ensureExtensionOnPath audioFile (disk s2) of
                (Inl e, d) \<Rightarrow> (Thrown e, s2\<lparr>disk := d\<rparr>)
              | (Inr readablePath, d) \<Rightarrow>
                  (case transcribe rq readablePath (s2\<lparr>disk := d\<rparr>) of
                     (Inl e, s3) \<Rightarrow> (Thrown e, s3)
                   | (Inr transcriptText, s3) \<Rightarrow>
                       summarise JSON_parse rq cleanedPlayers transcriptText s3)))"

text \<open>
  The handler: the method check and the credential check answer with a JSON body;
  after them the streaming headers and status 200 are set and everything else runs
  inside the outer \<^verbatim>\<open>try\<close>, whose \<^verbatim>\<open>catch\<close> sends an error frame unless the
  response has ended.
\<close>

definition handler :: "(string \<Rightarrow> jsval option) \<Rightarrow> request \<Rightarrow> hstate \<Rightarrow> hstate" where
  "handler JSON_parse rq s =
     (if req_method rq \<noteq> ''POST''
      then s\<lparr>res := json_error (Text ''Method not allowed'')
                      (status 405 (setHeader ''Allow'' ''POST'' (res s)))\<rparr>
      else
        (case ensureEnv rq of
           Inl e \<Rightarrow> s\<lparr>res := json_error (errorMessage e) (status 500 (res s))\<rparr>
         | Inr u \<Rightarrow>
             (let r = status 200
                        (setHeader ''Connection'' ''keep-alive''
                          (setHeader ''Cache-Control'' ''no-cache, no-transform''
                            (setHeader ''Content-Type'' ''application/json; charset=utf-8''
                              (res s))));
                  s0 = s\<lparr>res := r, responseEnded := False\<rparr>
              in case handler_try JSON_parse rq s0 of
                   (Thrown e, s1) \<Rightarrow>
                     if \<not> responseEnded s1 \<and> \<not> writableEnded (res s1)
                     then sendError (errorMessage e) s1 else s1
                 | (out, s1) \<Rightarrow> s1)))"

text \<open>A request starts with an untouched response and no call made.\<close>

definition freshResponse :: response where
  "freshResponse =
     \<lparr>headers = [], statusCode = 200, jsonBody = None, frames = [], writableEnded = False\<rparr>"

definition freshState :: "fsys \<Rightarrow> hstate" where
  "freshState d = \<lparr>res = freshResponse, responseEnded = False, disk = d, network = []\<rparr>"

definition emptyDisk :: fsys where
  "emptyDisk = \<lparr>files = Map.empty, renameFails = False, copyFails = False, fslog = []\<rparr>"

section \<open>Properties the specification states\<close>

text \<open>
  The reconciliation invariant as the specification words it: every roster name has
  exactly one summary, and no summary has a name outside the roster.
\<close>

definition coveredOnce :: "string list \<Rightarrow> PlayerSummary list \<Rightarrow> bool" where
  "coveredOnce roster sms \<longleftrightarrow>
     list_all (\<lambda>n. length (filter (\<lambda>s. name s = n) sms) = 1) roster"

definition withinRoster :: "string list \<Rightarrow> PlayerSummary list \<Rightarrow> bool" where
  "withinRoster roster sms \<longleftrightarrow> list_all (\<lambda>s. name s \<in> set roster) sms"

definition reconciled :: "string list \<Rightarrow> PlayerSummary list \<Rightarrow> bool" where
  "reconciled roster sms \<longleftrightarrow> coveredOnce roster sms \<and> withinRoster roster sms"

text \<open>
  The names the model output supplies: the \<^verbatim>\<open>name\<close> of every element of the
  \<^verbatim>\<open>players\<close> array that is an object with a string name and an array of points.
\<close>

fun entryName :: "jsval \<Rightarrow> string option" where
  "entryName (VObject kvs) =
     (case map_of kvs ''name'' of
        Some (VString n) \<Rightarrow>
          (case map_of kvs ''points'' of Some (VArray ps) \<Rightarrow> Some n | _ \<Rightarrow> None)
      | _ \<Rightarrow> None)"
| "entryName v = None"

fun playersArray :: "jsval \<Rightarrow> jsval list option" where
  "playersArray (VObject kvs) =
     (case map_of kvs ''players'' of Some (VArray es) \<Rightarrow> Some es | _ \<Rightarrow> None)"
| "playersArray v = None"

definition suppliedNames :: "jsval option \<Rightarrow> string list" where
  "suppliedNames parsed =
     (case parsed of
        None \<Rightarrow> []
      | Some v \<Rightarrow> (case playersArray v of None \<Rightarrow> [] | Some es \<Rightarrow> List.map_filter entryName es))"

text \<open>
  The model outputs on which the parser falls back: a text that is not JSON, a parsed
  value without a \<^verbatim>\<open>players\<close> array, or a \<^verbatim>\<open>players\<close> array with a \<^verbatim>\<open>null\<close>
  element.
\<close>

definition fallsBack :: "jsval option \<Rightarrow> bool" where
  "fallsBack parsed \<longleftrightarrow>
     (case parsed of
        None \<Rightarrow> True
      | Some v \<Rightarrow> (case playersArray v of None \<Rightarrow> True | Some es \<Rightarrow> VNull \<in> set es))"

text \<open>
  A model output that is not valid JSON, or whose parsed value has no \<^verbatim>\<open>players\<close>
  field or one that is not an array.
\<close>

definition structurallyInvalid :: "jsval option \<Rightarrow> bool" where
  "structurallyInvalid parsed \<longleftrightarrow>
     (case parsed of None \<Rightarrow> True | Some v \<Rightarrow> playersArray v = None)"

text \<open>
  Exactly one fallback placeholder per distinct roster name: every summary is the
  placeholder of a roster name, and the placeholder of each roster name occurs once.
\<close>

definition onePlaceholderPerName :: "string list \<Rightarrow> PlayerSummary list \<Rightarrow> bool" where
  "onePlaceholderPerName roster sms \<longleftrightarrow>
     list_all (\<lambda>s. s \<in> set (map (placeholder unparsedText) roster)) sms \<and>
     list_all (\<lambda>n. count_list sms (placeholder unparsedText n) = 1) roster"

text \<open>
  A well-formed result: a non-empty overall summary and, in every summary, only
  non-empty points.
\<close>

definition wellFormed :: "ParsedSummaryResult \<Rightarrow> bool" where
  "wellFormed r \<longleftrightarrow>
     overallSummary r \<noteq> [] \<and> list_all (\<lambda>s. list_all (\<lambda>p. p \<noteq> []) (points s)) (summaries r)"

text \<open>
  A conventional, non-streamed error response with a given status code: a JSON error
  body and no frame.
\<close>

definition nonStreamedError :: "nat \<Rightarrow> response \<Rightarrow> bool" where
  "nonStreamedError code r \<longleftrightarrow> statusCode r = code \<and> jsonBody r \<noteq> None \<and> frames r = []"

text \<open>
  A streamed body that is complete: progress frames only, then one terminal frame.
\<close>

definition oneTerminalLast :: "frame list \<Rightarrow> bool" where
  "oneTerminalLast fs \<longleftrightarrow>
     fs \<noteq> [] \<and> isTerminal (last fs) \<and> list_all (\<lambda>f. \<not> isTerminal f) (butlast fs)"

text \<open>The two kinds of terminal frame.\<close>

fun isErrorFrame :: "frame \<Rightarrow> bool" where
  "isErrorFrame (ErrorFrame m) = True"
| "isErrorFrame f = False"

fun isResultFrame :: "frame \<Rightarrow> bool" where
  "isResultFrame (Result p) = True"
| "isResultFrame f = False"

text \<open>
  Every stage of a request succeeds: the body is decoded, the cleaned roster is not
  empty, the audio part is there with a path, the extension resolution returns a path
  at which a file of non-zero size is stored, the transcription service answers with a
  text that is not blank, and the completion service answers with a non-empty content.
  \<open>d\<close> is the temp storage before the request.
\<close>

definition stagesSucceed :: "(string \<Rightarrow> jsval option) \<Rightarrow> request \<Rightarrow> fsys \<Rightarrow> bool" where
  "stagesSucceed JSON_parse rq d \<longleftrightarrow>
     (case multipart rq of
        Inl e \<Rightarrow> False
      | Inr f \<Rightarrow>
          (case cleanedPlayersOf (playerNamesOf JSON_parse (fields_players f)) of
             Inl e \<Rightarrow> False
           | Inr cleanedPlayers \<Rightarrow>
               cleanedPlayers \<noteq> [] \<and>
               (case audioFileOf f of
                  None \<Rightarrow> False
                | Some audioFile \<Rightarrow>
                    filepath audioFile \<noteq> [] \<and>
                    (case ensureExtensionOnPath audioFile (storeUploads (uploads rq) d) of
                       (Inl e, d1) \<Rightarrow> False
                     | (Inr readablePath, d1) \<Rightarrow>
                         (case files d1 readablePath of None \<Rightarrow> False | Some sz \<Rightarrow> sz \<noteq> 0) \<and>
                         (case transcription rq of
                            Inr (Some (VString t)) \<Rightarrow> trim t \<noteq> []
                          | _ \<Rightarrow> False) \<and>
                         (case completion rq of
                            Inr (Some content) \<Rightarrow> content \<noteq> []
                          | _ \<Rightarrow> False)))))"

definition streamHeaders :: "(string \<times> string) list" where
  "streamHeaders =
     [(''Content-Type'', ''application/json; charset=utf-8''),
      (''Cache-Control'', ''no-cache, no-transform''),
      (''Connection'', ''keep-alive'')]"

text \<open>The two states of the emitter while the handler runs.\<close>

definition streamOpen :: "hstate \<Rightarrow> bool" where
  "streamOpen s \<longleftrightarrow>
     \<not> responseEnded s \<and> \<not> writableEnded (res s) \<and>
     list_all (\<lambda>f. \<not> isTerminal f) (frames (res s))"

definition streamClosed :: "hstate \<Rightarrow> bool" where
  "streamClosed s \<longleftrightarrow>
     responseEnded s \<and> writableEnded (res s) \<and> oneTerminalLast (frames (res s))"

text \<open>
  What the emitter keeps true: no frame before the last one is terminal, and once a
  terminal frame is written the response has ended.
\<close>

definition emitInv :: "hstate \<Rightarrow> bool" where
  "emitInv s \<longleftrightarrow>
     list_all (\<lambda>f. \<not> isTerminal f) (butlast (frames (res s))) \<and>
     ((\<exists>f\<in>set (frames (res s)). isTerminal f) \<longrightarrow> responseEnded s \<or> writableEnded (res s))"

text \<open>What the streaming part of the handler never touches in the response.\<close>

definition responseMeta :: "response \<Rightarrow> (string \<times> string) list \<times> nat \<times> message option" where
  "responseMeta r = (headers r, statusCode r, jsonBody r)"

section \<open>Example inputs\<close>

text \<open>
  The value of \<^verbatim>\<open>JSON.parse\<close> at the texts the examples below use; every other text
  the examples pass to it (\<^verbatim>\<open>not json\<close>, a blank string, a bare name) is not JSON.
\<close>

definition exampleParse :: "string \<Rightarrow> jsval option" where
  \<open>exampleParse =
     map_of
       [(''{"players":[{"name":"Mira","points":["Hid"]},{"name":"Mira","points":["Ran"]},{"name":"Bob","points":["Hid"]}]}'',
         VObject [(''players'',
           VArray [VObject [(''name'', VString ''Mira''), (''points'', VArray [VString ''Hid''])],
                   VObject [(''name'', VString ''Mira''), (''points'', VArray [VString ''Ran''])],
                   VObject [(''name'', VString ''Bob''), (''points'', VArray [VString ''Hid''])]])]),
        (''{"dmSummary":"The party explored the ruins.","players":[{"name":"Mira","points":["Found a key","Fought a wraith","Opened the vault"]}]}'',
         VObject [(''dmSummary'', VString ''The party explored the ruins.''),
           (''players'',
            VArray [VObject [(''name'', VString ''Mira''),
              (''points'',
               VArray [VString ''Found a key'', VString ''Fought a wraith'',
                 VString ''Opened the vault''])]])]),
        (''{"players":[{"name":"mira","points":["Found a key"]},{"name":" Mira","points":[" "]}]}'',
         VObject [(''players'',
           VArray [VObject [(''name'', VString ''mira''),
                     (''points'', VArray [VString ''Found a key''])],
                   VObject [(''name'', VString '' Mira''),
                     (''points'', VArray [VString '' ''])]])]),
        (''{"players":[{"name":"Bob","points":["Hid"]},null]}'',
         VObject [(''players'',
           VArray [VObject [(''name'', VString ''Bob''), (''points'', VArray [VString ''Hid''])],
                   VNull])]),
        (''{"players":"none"}'', VObject [(''players'', VString ''none'')]),
        (''[1,2]'', VArray [VNumber 1, VNumber 2])]\<close>

text \<open>
  A well-formed request: method POST, the credential set, one audio part named
  \<^verbatim>\<open>voice.MP3\<close> of the given size stored at \<^verbatim>\<open>/tmp/upload_1\<close>, the given
  \<^verbatim>\<open>players\<close> field, and services that answer with a transcript and with the model
  output of the specification's example.
\<close>

definition exampleRequest :: "jsval option \<Rightarrow> nat \<Rightarrow> request" where
  \<open>exampleRequest playersField sz =
     \<lparr>req_method = ''POST'',
      OPENAI_KEY = Some ''sk-example'',
      uploads = [(''/tmp/upload_1'', sz)],
      multipart =
        Inr \<lparr>fields_players = playersField,
             files_audio =
               Some (OneFile \<lparr>filepath = ''/tmp/upload_1'', originalFilename = Some ''voice.MP3'',
                              mimetype = Some ''audio/mpeg'', size_bytes = sz\<rparr>),
             files_file = None\<rparr>,
      transcription = Inr (Some (VString ''The party explored the ruins. '')),
      completion =
        Inr (Some ''{"dmSummary":"The party explored the ruins.","players":[{"name":"Mira","points":["Found a key","Fought a wraith","Opened the vault"]}]}'')\<rparr>\<close>

section \<open>Facts about the set of roster names and the entry filter\<close>

lemma set_newSet_aux: "set (foldl (\<lambda>s x. set_add x s) acc xs) = set acc \<union> set xs"
  by (induction xs arbitrary: acc) (auto simp: set_add_def)

lemma distinct_newSet_aux: "distinct acc \<Longrightarrow> distinct (foldl (\<lambda>s x. set_add x s) acc xs)"
  by (induction xs arbitrary: acc) (auto simp: set_add_def)

lemma set_newSet: "set (newSet xs) = set xs"
  by (simp add: newSet_def set_newSet_aux)

lemma distinct_newSet: "distinct (newSet xs)"
  by (simp add: newSet_def distinct_newSet_aux)

lemma missing_aux:
  "foldl (\<lambda>s summary. set_delete (name summary) s) acc sms =
     filter (\<lambda>n. n \<notin> name ` set sms) acc"
  by (induction sms arbitrary: acc) (auto simp: set_delete_def intro: filter_cong)

lemma missingPlayers_eq:
  "missingPlayers roster sms = filter (\<lambda>n. n \<notin> name ` set sms) (newSet roster)"
  by (simp add: missingPlayers_def missing_aux)

lemma reconcile_eq:
  "reconcile roster sms = sms @ map (placeholder noSummaryText) (missingPlayers roster sms)"
  by (simp add: reconcile_def Let_def)

lemma filterEntries_names:
  "filterEntries es = Inr kept \<Longrightarrow> map fst kept = List.map_filter entryName es"
proof (induction es arbitrary: kept)
  case Nil
  then show ?case by simp
next
  case (Cons e es)
  then show ?case
    by (cases e)
      (auto simp: entryGuard_def
            split: sum.splits option.splits jsval.splits)
qed

lemma parse_fallback_or_try:
  "parseSummaries jp raw roster = Inr r \<Longrightarrow>
     parseSummaries_try jp raw roster = Inr r \<or>
     ((\<exists>e. parseSummaries_try jp raw roster = Inl e) \<and>
      r = \<lparr>overallSummary = unparsedText, summaries = map (placeholder unparsedText) roster\<rparr>)"
  by (auto simp: parseSummaries_def parseSummaries_catch_def split: sum.splits)

lemma try_summaries:
  assumes "parseSummaries_try jp raw roster = Inr r"
  shows "\<exists>kept. map fst kept = suppliedNames (jp raw) \<and>
           summaries r = reconcile roster (map entrySummary kept)"
proof -
  from assms obtain parsed where p: "jp raw = Some parsed"
    by (auto simp: parseSummaries_try_def split: option.splits)
  from assms p obtain es where es: "getProp parsed ''players'' = Inr (Some (VArray es))"
    by (auto simp: parseSummaries_try_def split: option.splits sum.splits jsval.splits)
  from assms p es obtain kept where k: "filterEntries es = Inr kept"
    by (auto simp: parseSummaries_try_def split: option.splits sum.splits jsval.splits)
  from assms p es k have s: "summaries r = reconcile roster (map entrySummary kept)"
    by (auto simp: parseSummaries_try_def split: option.splits sum.splits jsval.splits)
  from es have pa: "playersArray parsed = Some es"
    by (cases parsed) (auto split: option.splits jsval.splits)
  have "map fst kept = suppliedNames (jp raw)"
    using filterEntries_names[OF k] p pa by (simp add: suppliedNames_def)
  with s show ?thesis by blast
qed

lemma name_entrySummary: "map name (map entrySummary kept) = map fst kept"
  by (simp add: entrySummary_def)

lemma name_placeholder [simp]: "name (placeholder t n) = n"
  by (simp add: placeholder_def)

lemma names_reconcile:
  "map name (reconcile roster sms) =
     map name sms @ filter (\<lambda>n. n \<notin> set (map name sms)) (newSet roster)"
  by (simp add: reconcile_eq missingPlayers_eq comp_def)

lemma count_names: "length (filter (\<lambda>s. name s = n) sms) = count_list (map name sms) n"
  by (induction sms) auto

lemma count_filter_distinct:
  "distinct xs \<Longrightarrow> count_list (filter P xs) n = (if n \<in> set xs \<and> P n then 1 else 0)"
  by (induction xs) auto

lemma count_reconcile:
  "count_list (map name (reconcile roster sms)) n =
     count_list (map name sms) n + (if n \<in> set roster \<and> n \<notin> set (map name sms) then 1 else 0)"
  by (simp add: names_reconcile count_filter_distinct distinct_newSet set_newSet del: set_map)

lemma entryGuard_total: "entry \<noteq> VNull \<Longrightarrow> \<exists>g. entryGuard entry = Inr g"
  by (cases entry) (auto simp: entryGuard_def split: option.splits jsval.splits)

lemma entryGuard_valid:
  "map_of e ''name'' = Some (VString n) \<Longrightarrow> map_of e ''points'' = Some (VArray ps) \<Longrightarrow>
     entryGuard (VObject e) = Inr (Some (n, ps))"
  by (simp add: entryGuard_def)

lemma filterEntries_keeps:
  assumes "VNull \<notin> set es"
  shows "\<exists>kept. filterEntries es = Inr kept \<and>
           (\<forall>e n ps. VObject e \<in> set es \<and> map_of e ''name'' = Some (VString n) \<and>
               map_of e ''points'' = Some (VArray ps) \<longrightarrow> (n, ps) \<in> set kept)"
  using assms
proof (induction es)
  case Nil
  then show ?case by simp
next
  case (Cons a es)
  then obtain kept where k: "filterEntries es = Inr kept"
    and v: "\<forall>e n ps. VObject e \<in> set es \<and> map_of e ''name'' = Some (VString n) \<and>
               map_of e ''points'' = Some (VArray ps) \<longrightarrow> (n, ps) \<in> set kept"
    by auto
  from Cons.prems have "a \<noteq> VNull" by auto
  from entryGuard_total[OF this] obtain g where g: "entryGuard a = Inr g" by blast
  let ?kept = "case g of None \<Rightarrow> kept | Some v \<Rightarrow> v # kept"
  have f: "filterEntries (a # es) = Inr ?kept" by (simp add: g k)
  have sub: "set kept \<subseteq> set ?kept" by (auto split: option.splits)
  have "\<forall>e n ps. VObject e \<in> set (a # es) \<and> map_of e ''name'' = Some (VString n) \<and>
               map_of e ''points'' = Some (VArray ps) \<longrightarrow> (n, ps) \<in> set ?kept"
  proof (intro allI impI)
    fix e n ps
    assume h: "VObject e \<in> set (a # es) \<and> map_of e ''name'' = Some (VString n) \<and>
               map_of e ''points'' = Some (VArray ps)"
    show "(n, ps) \<in> set ?kept"
    proof (cases "a = VObject e")
      case True
      with h g entryGuard_valid[of e n ps] have "g = Some (n, ps)" by simp
      then show ?thesis by simp
    next
      case False
      with h have "VObject e \<in> set es" by auto
      with h v have "(n, ps) \<in> set kept" by blast
      with sub show ?thesis by blast
    qed
  qed
  with f show ?case by blast
qed

lemma try_invalid:
  assumes "structurallyInvalid (jp raw)"
  shows "\<exists>e. parseSummaries_try jp raw roster = Inl e"
proof (cases "jp raw")
  case None
  then show ?thesis by (simp add: parseSummaries_try_def)
next
  case (Some v)
  with assms have pa: "playersArray v = None" by (simp add: structurallyInvalid_def)
  then show ?thesis using Some
    by (cases v) (auto simp: parseSummaries_try_def split: option.splits jsval.splits)
qed

lemma filterEntries_null: "VNull \<in> set es \<Longrightarrow> filterEntries es = Inl TypeError"
proof (induction es)
  case Nil
  then show ?case by simp
next
  case (Cons a es)
  show ?case
  proof (cases "a = VNull")
    case True
    then show ?thesis by (simp add: entryGuard_def)
  next
    case False
    with Cons have r: "filterEntries es = Inl TypeError" by simp
    from entryGuard_total[OF False] obtain g where "entryGuard a = Inr g" by blast
    with r show ?thesis by simp
  qed
qed

lemma playersArray_Some:
  "playersArray v = Some es \<Longrightarrow> \<exists>kvs. v = VObject kvs \<and> map_of kvs ''players'' = Some (VArray es)"
  by (cases v) (auto split: option.splits jsval.splits)

lemma try_fallsBack:
  assumes "fallsBack parsed" and "jp raw = parsed"
  shows "\<exists>e. parseSummaries_try jp raw roster = Inl e"
proof (cases parsed)
  case None
  with assms(2) show ?thesis by (simp add: parseSummaries_try_def)
next
  case (Some v)
  show ?thesis
  proof (cases "playersArray v")
    case None
    with Some assms(2) have "structurallyInvalid (jp raw)" by (simp add: structurallyInvalid_def)
    from try_invalid[of jp raw, OF this] show ?thesis .
  next
    case (Some es)
    with \<open>parsed = Some v\<close> assms(1) have n: "VNull \<in> set es" by (simp add: fallsBack_def)
    from playersArray_Some[OF Some] obtain kvs where
      v: "v = VObject kvs" and p: "map_of kvs ''players'' = Some (VArray es)" by blast
    from assms(2) \<open>parsed = Some v\<close> v p filterEntries_null[OF n] show ?thesis
      by (simp add: parseSummaries_try_def)
  qed
qed

lemma try_not_fallsBack:
  assumes "\<not> fallsBack parsed" and "jp raw = parsed"
  shows "\<exists>r. parseSummaries_try jp raw roster = Inr r"
proof -
  from assms(1) obtain v es where v: "parsed = Some v" and pa: "playersArray v = Some es"
    and n: "VNull \<notin> set es"
    by (auto simp: fallsBack_def split: option.splits)
  from playersArray_Some[OF pa] obtain kvs where
    o: "v = VObject kvs" and p: "map_of kvs ''players'' = Some (VArray es)" by blast
  from filterEntries_keeps[OF n] obtain kept where "filterEntries es = Inr kept" by blast
  with assms(2) v o p show ?thesis by (simp add: parseSummaries_try_def)
qed

lemma try_name_count:
  assumes "parseSummaries_try jp raw roster = Inr r"
  shows "length (filter (\<lambda>s. name s = n) (summaries r)) =
           count_list (suppliedNames (jp raw)) n +
           (if n \<in> set roster \<and> n \<notin> set (suppliedNames (jp raw)) then 1 else 0)"
proof -
  from try_summaries[OF assms] obtain kept where
    k: "map fst kept = suppliedNames (jp raw)" and
    s: "summaries r = reconcile roster (map entrySummary kept)" by blast
  have nm: "map name (map entrySummary kept) = suppliedNames (jp raw)"
    using k name_entrySummary[of kept] by simp
  show ?thesis unfolding count_names s count_reconcile nm ..
qed

lemma fallback_name_count:
  "length (filter (\<lambda>s. name s = n) (map (placeholder t) roster)) = count_list roster n"
  by (induction roster) auto

lemma parseSummaries_returns: "\<exists>r. parseSummaries jp raw roster = Inr r"
  by (simp add: parseSummaries_def parseSummaries_catch_def split: sum.splits)

lemmas parse_eval =
  parseSummaries_def parseSummaries_try_def parseSummaries_catch_def entryGuard_def
  entrySummary_def reconcile_def missingPlayers_def newSet_def set_add_def set_delete_def
  dmSummaryOf_def trim_def isWhiteSpace_def placeholder_def
  exampleParse_def

section \<open>The reconciliation invariant\<close>

text \<open>
  Claim C1, as the specification states it: for every roster and every raw model output
  the summaries returned by \<open>parseSummaries\<close> hold exactly one entry for every roster
  name and no entry whose name is outside the roster. The code does not do that: it keeps
  every model entry that has a string name and an array of points, whatever its name and
  however often the name occurs. For the roster \<^verbatim>\<open>["Mira"]\<close> and a model output with
  two entries named \<^verbatim>\<open>Mira\<close> and one named \<^verbatim>\<open>Bob\<close> the result holds the three
  entries: Mira has two summaries, and Bob's name is outside the roster. And on the
  fallback path the roster \<^verbatim>\<open>["Mira","Mira"]\<close> gets two placeholders for Mira.
\<close>

theorem parseSummaries_not_reconciled:
  \<open>parseSummaries exampleParse
     ''{"players":[{"name":"Mira","points":["Hid"]},{"name":"Mira","points":["Ran"]},{"name":"Bob","points":["Hid"]}]}''
     [''Mira''] =
     Inr \<lparr>overallSummary = noOverallText,
          summaries = [\<lparr>name = ''Mira'', points = [''Hid'']\<rparr>,
                       \<lparr>name = ''Mira'', points = [''Ran'']\<rparr>,
                       \<lparr>name = ''Bob'', points = [''Hid'']\<rparr>]\<rparr> \<and>
   \<not> coveredOnce [''Mira'']
       [\<lparr>name = ''Mira'', points = [''Hid'']\<rparr>, \<lparr>name = ''Mira'', points = [''Ran'']\<rparr>,
        \<lparr>name = ''Bob'', points = [''Hid'']\<rparr>] \<and>
   \<not> withinRoster [''Mira'']
       [\<lparr>name = ''Mira'', points = [''Hid'']\<rparr>, \<lparr>name = ''Mira'', points = [''Ran'']\<rparr>,
        \<lparr>name = ''Bob'', points = [''Hid'']\<rparr>] \<and>
   \<not> reconciled [''Mira'']
       [\<lparr>name = ''Mira'', points = [''Hid'']\<rparr>, \<lparr>name = ''Mira'', points = [''Ran'']\<rparr>,
        \<lparr>name = ''Bob'', points = [''Hid'']\<rparr>] \<and>
   parseSummaries exampleParse ''not json'' [''Mira'', ''Mira''] =
     Inr \<lparr>overallSummary = unparsedText,
          summaries = [\<lparr>name = ''Mira'', points = [unparsedText]\<rparr>,
                       \<lparr>name = ''Mira'', points = [unparsedText]\<rparr>]\<rparr> \<and>
   \<not> reconciled [''Mira'', ''Mira'']
       [\<lparr>name = ''Mira'', points = [unparsedText]\<rparr>,
        \<lparr>name = ''Mira'', points = [unparsedText]\<rparr>]\<close>
  by (simp add: parse_eval reconciled_def coveredOnce_def withinRoster_def)

text \<open>
  Claim C1, amended: for every roster and every raw model output \<open>parseSummaries\<close>
  returns, and every roster name has at least one summary. When the parser does not
  fall back (the output is JSON with a \<^verbatim>\<open>players\<close> array that holds no \<^verbatim>\<open>null\<close>),
  the number of summaries with a given name is the number of valid entries the model
  output supplies with that name, plus one if the name is a roster name for which it
  supplies none: a roster name has exactly one summary exactly when the output supplies
  at most one valid entry for it, and a name outside the roster has as many summaries
  as the output supplies. When the parser falls back, a name has as many summaries as
  the roster lists it.
\<close>

theorem parseSummaries_covers_roster:
  "\<exists>r. parseSummaries jp raw roster = Inr r \<and>
     (\<forall>n\<in>set roster. \<exists>s\<in>set (summaries r). name s = n) \<and>
     (\<not> fallsBack (jp raw) \<longrightarrow>
        (\<forall>n. length (filter (\<lambda>s. name s = n) (summaries r)) =
               count_list (suppliedNames (jp raw)) n +
               (if n \<in> set roster \<and> n \<notin> set (suppliedNames (jp raw)) then 1 else 0))) \<and>
     (fallsBack (jp raw) \<longrightarrow>
        (\<forall>n. length (filter (\<lambda>s. name s = n) (summaries r)) = count_list roster n))"
proof (cases "fallsBack (jp raw)")
  case True
  from try_fallsBack[of "jp raw" jp raw roster, OF True refl] obtain e where
    "parseSummaries_try jp raw roster = Inl e" by blast
  then have p: "parseSummaries jp raw roster =
      Inr \<lparr>overallSummary = unparsedText, summaries = map (placeholder unparsedText) roster\<rparr>"
    by (simp add: parseSummaries_def parseSummaries_catch_def)
  have a: "\<forall>n\<in>set roster. \<exists>s\<in>set (map (placeholder unparsedText) roster). name s = n"
    by auto
  from p a True fallback_name_count show ?thesis by simp
next
  case False
  from try_not_fallsBack[of "jp raw" jp raw roster, OF False refl] obtain r where
    t: "parseSummaries_try jp raw roster = Inr r" by blast
  then have p: "parseSummaries jp raw roster = Inr r" by (simp add: parseSummaries_def)
  have c: "\<forall>n. length (filter (\<lambda>s. name s = n) (summaries r)) =
               count_list (suppliedNames (jp raw)) n +
               (if n \<in> set roster \<and> n \<notin> set (suppliedNames (jp raw)) then 1 else 0)"
    using try_name_count[OF t] by blast
  have a: "\<forall>n\<in>set roster. \<exists>s\<in>set (summaries r). name s = n"
  proof
    fix n assume n: "n \<in> set roster"
    have "length (filter (\<lambda>s. name s = n) (summaries r)) > 0"
    proof (cases "n \<in> set (suppliedNames (jp raw))")
      case True
      then have "count_list (suppliedNames (jp raw)) n > 0"
        using count_list_0_iff[of "suppliedNames (jp raw)" n] by auto
      with c show ?thesis by simp
    next
      case False
      with c n show ?thesis by simp
    qed
    then have "filter (\<lambda>s. name s = n) (summaries r) \<noteq> []" by simp
    then obtain s where "s \<in> set (filter (\<lambda>s. name s = n) (summaries r))"
      by (meson last_in_set)
    then show "\<exists>s\<in>set (summaries r). name s = n" by auto
  qed
  from p a c False show ?thesis by blast
qed

text \<open>
  The example of the specification: roster \<^verbatim>\<open>["Mira","Tobo"]\<close>, a model output with
  an entry for Mira only; the parser does not fall back and each name has exactly one
  summary. And an output whose \<^verbatim>\<open>players\<close> array holds an entry for Bob and a
  \<^verbatim>\<open>null\<close>: the parser falls back, Bob's entry is gone and the roster
  \<^verbatim>\<open>["Mira","Mira"]\<close> gets two placeholders.
\<close>

theorem parseSummaries_covers_roster_witness:
  \<open>\<not> fallsBack (exampleParse
        ''{"dmSummary":"The party explored the ruins.","players":[{"name":"Mira","points":["Found a key","Fought a wraith","Opened the vault"]}]}'') \<and>
   parseSummaries exampleParse
     ''{"dmSummary":"The party explored the ruins.","players":[{"name":"Mira","points":["Found a key","Fought a wraith","Opened the vault"]}]}''
     [''Mira'', ''Tobo''] =
     Inr \<lparr>overallSummary = ''The party explored the ruins.'',
          summaries = [\<lparr>name = ''Mira'',
                         points = [''Found a key'', ''Fought a wraith'', ''Opened the vault'']\<rparr>,
                       \<lparr>name = ''Tobo'', points = [noSummaryText]\<rparr>]\<rparr> \<and>
   reconciled [''Mira'', ''Tobo'']
     [\<lparr>name = ''Mira'', points = [''Found a key'', ''Fought a wraith'', ''Opened the vault'']\<rparr>,
      \<lparr>name = ''Tobo'', points = [noSummaryText]\<rparr>] \<and>
   fallsBack (exampleParse ''{"players":[{"name":"Bob","points":["Hid"]},null]}'') \<and>
   parseSummaries exampleParse ''{"players":[{"name":"Bob","points":["Hid"]},null]}''
     [''Mira'', ''Mira''] =
     Inr \<lparr>overallSummary = unparsedText,
          summaries = [\<lparr>name = ''Mira'', points = [unparsedText]\<rparr>,
                       \<lparr>name = ''Mira'', points = [unparsedText]\<rparr>]\<rparr>\<close>
proof -
  let ?raw = \<open>''{"dmSummary":"The party explored the ruins.","players":[{"name":"Mira","points":["Found a key","Fought a wraith","Opened the vault"]}]}''\<close>
  let ?r = "\<lparr>overallSummary = ''The party explored the ruins.'',
          summaries = [\<lparr>name = ''Mira'',
                         points = [''Found a key'', ''Fought a wraith'', ''Opened the vault'']\<rparr>,
                       \<lparr>name = ''Tobo'', points = [noSummaryText]\<rparr>]\<rparr>"
  let ?raw2 = \<open>''{"players":[{"name":"Bob","points":["Hid"]},null]}''\<close>
  let ?r2 = "\<lparr>overallSummary = unparsedText,
          summaries = [\<lparr>name = ''Mira'', points = [unparsedText]\<rparr>,
                       \<lparr>name = ''Mira'', points = [unparsedText]\<rparr>]\<rparr>"
  have f: "\<not> fallsBack (exampleParse ?raw)"
    by (simp add: fallsBack_def exampleParse_def)
  have sn: "suppliedNames (exampleParse ?raw) = [''Mira'']"
    by (simp add: suppliedNames_def exampleParse_def)
  have h: "parseSummaries exampleParse ?raw [''Mira'', ''Tobo''] = Inr ?r"
    by (simp add: parse_eval)
  from parseSummaries_covers_roster[of exampleParse ?raw "[''Mira'', ''Tobo'']"] f h
  have c: "\<forall>n. length (filter (\<lambda>s. name s = n) (summaries ?r)) =
               count_list (suppliedNames (exampleParse ?raw)) n +
               (if n \<in> set [''Mira'', ''Tobo''] \<and> n \<notin> set (suppliedNames (exampleParse ?raw))
                then 1 else 0)"
    by auto
  have r: "reconciled [''Mira'', ''Tobo''] (summaries ?r)"
    using c by (simp add: reconciled_def coveredOnce_def withinRoster_def sn)
  have f2: "fallsBack (exampleParse ?raw2)"
    by (simp add: fallsBack_def exampleParse_def)
  have h2: "parseSummaries exampleParse ?raw2 [''Mira'', ''Mira''] = Inr ?r2"
    by (simp add: parse_eval)
  from parseSummaries_covers_roster[of exampleParse ?raw2 "[''Mira'', ''Mira'']"] f2 h2
  have "\<forall>n. length (filter (\<lambda>s. name s = n) (summaries ?r2)) = count_list [''Mira'', ''Mira''] n"
    by auto
  with f h r f2 h2 show ?thesis by simp
qed

section \<open>The fallback path\<close>


lemma count_placeholder_distinct:
  "distinct roster \<Longrightarrow> n \<in> set roster \<Longrightarrow>
     count_list (map (placeholder t) roster) (placeholder t n) = 1"
proof (induction roster)
  case Nil
  then show ?case by simp
next
  case (Cons a roster)
  have inj: "\<And>x y. placeholder t x = placeholder t y \<longleftrightarrow> x = y"
    by (auto simp: placeholder_def)
  show ?case
  proof (cases "a = n")
    case True
    with Cons.prems have "n \<notin> set roster" by simp
    then have "placeholder t n \<notin> set (map (placeholder t) roster)" by (auto simp: inj)
    then have "count_list (map (placeholder t) roster) (placeholder t n) = 0"
      using count_list_0_iff[of "map (placeholder t) roster" "placeholder t n"] by blast
    with True show ?thesis by simp
  next
    case False
    with Cons show ?thesis by (simp add: inj)
  qed
qed

text \<open>
  Claim C2, amended: when the raw model output is not valid JSON, or its parsed value has
  no \<^verbatim>\<open>players\<close> field or one that is not an array, \<open>parseSummaries\<close> raises no
  error and returns the fallback text as overall summary and one fallback placeholder
  per roster entry, in roster order; that is exactly one per distinct roster name when
  no name is repeated in the roster.
\<close>

theorem parseSummaries_fallback:
  assumes "structurallyInvalid (jp raw)"
  shows "parseSummaries jp raw roster =
           Inr \<lparr>overallSummary = unparsedText,
                summaries = map (placeholder unparsedText) roster\<rparr> \<and>
         (distinct roster \<longrightarrow>
            onePlaceholderPerName roster (map (placeholder unparsedText) roster))"
proof -
  from try_invalid[of jp raw, OF assms] obtain e where "parseSummaries_try jp raw roster = Inl e" by blast
  then have a: "parseSummaries jp raw roster =
           Inr \<lparr>overallSummary = unparsedText,
                summaries = map (placeholder unparsedText) roster\<rparr>"
    by (simp add: parseSummaries_def parseSummaries_catch_def)
  have b: "distinct roster \<longrightarrow>
            onePlaceholderPerName roster (map (placeholder unparsedText) roster)"
    by (auto simp: onePlaceholderPerName_def list_all_iff count_placeholder_distinct)
  from a b show ?thesis by blast
qed

text \<open>
  Claim C2, as the specification states it, asks for exactly one placeholder per distinct
  roster name. The fallback maps over the roster as it is: for the roster
  \<^verbatim>\<open>["Mira","Mira"]\<close> and the output \<^verbatim>\<open>not json\<close> it returns two placeholders
  for Mira.
\<close>

theorem parseSummaries_fallback_duplicates:
  "parseSummaries exampleParse ''not json'' [''Mira'', ''Mira''] =
     Inr \<lparr>overallSummary = unparsedText,
          summaries = [\<lparr>name = ''Mira'', points = [unparsedText]\<rparr>,
                       \<lparr>name = ''Mira'', points = [unparsedText]\<rparr>]\<rparr> \<and>
   \<not> onePlaceholderPerName [''Mira'', ''Mira'']
       [\<lparr>name = ''Mira'', points = [unparsedText]\<rparr>,
        \<lparr>name = ''Mira'', points = [unparsedText]\<rparr>]"
  by (simp add: parse_eval onePlaceholderPerName_def)

text \<open>
  The output \<^verbatim>\<open>{"players":"none"}\<close> is JSON whose \<^verbatim>\<open>players\<close> field is a string.
\<close>

theorem parseSummaries_fallback_witness:
  \<open>structurallyInvalid (exampleParse ''{"players":"none"}'') \<and>
   parseSummaries exampleParse ''{"players":"none"}'' [''Mira'', ''Tobo''] =
     Inr \<lparr>overallSummary = ''The AI response could not be parsed.'',
          summaries = [\<lparr>name = ''Mira'', points = [''The AI response could not be parsed.'']\<rparr>,
                       \<lparr>name = ''Tobo'', points = [''The AI response could not be parsed.'']\<rparr>]\<rparr> \<and>
   onePlaceholderPerName [''Mira'', ''Tobo'']
     (map (placeholder unparsedText) [''Mira'', ''Tobo''])\<close>
proof -
  have h: \<open>structurallyInvalid (exampleParse ''{"players":"none"}'')\<close>
    by (simp add: structurallyInvalid_def exampleParse_def)
  from parseSummaries_fallback[of exampleParse _ "[''Mira'', ''Tobo'']", OF h] show ?thesis
    using h by (simp add: placeholder_def unparsedText_def)
qed

section \<open>Totality of the parser\<close>

lemma trim_nonempty: "length (trim p) > 0 \<Longrightarrow> trim p \<noteq> []"
  by auto

lemma points_entrySummary: "list_all (\<lambda>p. p \<noteq> []) (points (entrySummary e))"
proof -
  have "\<And>ps. list_all (\<lambda>p. p \<noteq> []) (map trim (List.map_filter pointGuard ps))"
  proof -
    fix ps show "list_all (\<lambda>p. p \<noteq> []) (map trim (List.map_filter pointGuard ps))"
    proof (induction ps)
      case Nil
      then show ?case by simp
    next
      case (Cons a ps)
      then show ?case by (cases a) auto
    qed
  qed
  then show ?thesis by (simp add: entrySummary_def)
qed

lemma wellFormed_try:
  assumes "parseSummaries_try jp raw roster = Inr r"
  shows "wellFormed r"
proof -
  from assms obtain parsed where p: "jp raw = Some parsed"
    by (auto simp: parseSummaries_try_def split: option.splits)
  from assms p obtain es where es: "getProp parsed ''players'' = Inr (Some (VArray es))"
    by (auto simp: parseSummaries_try_def split: option.splits sum.splits jsval.splits)
  from assms p es obtain kept where k: "filterEntries es = Inr kept"
    by (auto simp: parseSummaries_try_def split: option.splits sum.splits jsval.splits)
  from assms p es k obtain dm where
    r: "r = \<lparr>overallSummary = dmSummaryOf dm,
             summaries = reconcile roster (map entrySummary kept)\<rparr>"
    by (auto simp: parseSummaries_try_def split: option.splits sum.splits jsval.splits)
  have o: "dmSummaryOf dm \<noteq> []"
    by (auto simp: dmSummaryOf_def noOverallText_def split: option.splits jsval.splits)
  have s: "list_all (\<lambda>s. list_all (\<lambda>p. p \<noteq> []) (points s))
             (reconcile roster (map entrySummary kept))"
    unfolding reconcile_eq list_all_append
  proof
    show "list_all (\<lambda>s. list_all (\<lambda>p. p \<noteq> []) (points s)) (map entrySummary kept)"
      using points_entrySummary by (simp add: list_all_iff)
    show "list_all (\<lambda>s. list_all (\<lambda>p. p \<noteq> []) (points s))
            (map (placeholder noSummaryText) (missingPlayers roster (map entrySummary kept)))"
      by (simp add: list_all_iff placeholder_def noSummaryText_def)
  qed
  from o s show ?thesis by (simp add: wellFormed_def r)
qed

text \<open>
  Claim C3: \<open>parseSummaries\<close> is total. For every raw model output and every roster
  it returns a result and raises nothing, and the result is well formed: the overall
  summary is not empty and no point of any summary is empty.
\<close>

theorem parseSummaries_total:
  "\<exists>r. parseSummaries jp raw roster = Inr r \<and> wellFormed r"
proof (cases "parseSummaries_try jp raw roster")
  case (Inl e)
  then have "parseSummaries jp raw roster =
           Inr \<lparr>overallSummary = unparsedText,
                summaries = map (placeholder unparsedText) roster\<rparr>"
    by (simp add: parseSummaries_def parseSummaries_catch_def)
  moreover have "wellFormed \<lparr>overallSummary = unparsedText,
                summaries = map (placeholder unparsedText) roster\<rparr>"
    by (simp add: wellFormed_def unparsedText_def list_all_iff placeholder_def)
  ultimately show ?thesis by blast
next
  case (Inr r)
  then have "parseSummaries jp raw roster = Inr r" by (simp add: parseSummaries_def)
  with wellFormed_try[OF Inr] show ?thesis by blast
qed

text \<open>The result for a text that is not JSON.\<close>

theorem parseSummaries_total_witness:
  \<open>parseSummaries exampleParse ''not json'' [''Mira''] =
     Inr \<lparr>overallSummary = unparsedText,
          summaries = [\<lparr>name = ''Mira'', points = [unparsedText]\<rparr>]\<rparr> \<and>
   wellFormed \<lparr>overallSummary = unparsedText,
          summaries = [\<lparr>name = ''Mira'', points = [unparsedText]\<rparr>]\<rparr>\<close>
proof -
  from parseSummaries_total[of exampleParse "''not json''" "[''Mira'']"]
  obtain r where r: "parseSummaries exampleParse ''not json'' [''Mira''] = Inr r" and w: "wellFormed r"
    by blast
  have e: "parseSummaries exampleParse ''not json'' [''Mira''] =
     Inr \<lparr>overallSummary = unparsedText,
          summaries = [\<lparr>name = ''Mira'', points = [unparsedText]\<rparr>]\<rparr>"
    by (simp add: parse_eval)
  with r w show ?thesis by simp
qed

section \<open>Names are matched exactly\<close>

text \<open>
  Claim C9: reconciliation compares names by string equality. When the model output is an
  object whose \<^verbatim>\<open>players\<close> array has no \<^verbatim>\<open>null\<close> element, every valid entry of
  the array is in the result under its own name; a roster name that no valid entry
  carries exactly gets the placeholder entry, which is then its only summary, however
  close the entries' names are to it; and a roster name that a valid entry carries
  exactly gets no placeholder: its summaries are as many as the entries with that name.
\<close>

theorem parseSummaries_exact_names:
  assumes "jp raw = Some (VObject kvs)"
    and "map_of kvs ''players'' = Some (VArray es)"
    and "VNull \<notin> set es"
  shows "\<exists>r. parseSummaries jp raw roster = Inr r \<and>
           (\<forall>e n ps. VObject e \<in> set es \<and> map_of e ''name'' = Some (VString n) \<and>
                      map_of e ''points'' = Some (VArray ps) \<longrightarrow>
                        entrySummary (n, ps) \<in> set (summaries r)) \<and>
           (\<forall>rn\<in>set roster. rn \<notin> set (suppliedNames (jp raw)) \<longrightarrow>
              placeholder noSummaryText rn \<in> set (summaries r) \<and>
              length (filter (\<lambda>s. name s = rn) (summaries r)) = 1) \<and>
           (\<forall>rn\<in>set roster. rn \<in> set (suppliedNames (jp raw)) \<longrightarrow>
              length (filter (\<lambda>s. name s = rn) (summaries r)) =
                count_list (suppliedNames (jp raw)) rn)"
proof -
  from filterEntries_keeps[OF assms(3)] obtain kept where k: "filterEntries es = Inr kept"
    and v: "\<forall>e n ps. VObject e \<in> set es \<and> map_of e ''name'' = Some (VString n) \<and>
               map_of e ''points'' = Some (VArray ps) \<longrightarrow> (n, ps) \<in> set kept"
    by blast
  let ?r = "\<lparr>overallSummary = dmSummaryOf (map_of kvs ''dmSummary''),
             summaries = reconcile roster (map entrySummary kept)\<rparr>"
  have t: "parseSummaries_try jp raw roster = Inr ?r"
    using assms(1,2) k by (simp add: parseSummaries_try_def)
  then have p: "parseSummaries jp raw roster = Inr ?r" by (simp add: parseSummaries_def)
  have a: "\<forall>e n ps. VObject e \<in> set es \<and> map_of e ''name'' = Some (VString n) \<and>
                      map_of e ''points'' = Some (VArray ps) \<longrightarrow>
                        entrySummary (n, ps) \<in> set (summaries ?r)"
  proof (intro allI impI)
    fix e n ps
    assume "VObject e \<in> set es \<and> map_of e ''name'' = Some (VString n) \<and>
                      map_of e ''points'' = Some (VArray ps)"
    with v have "(n, ps) \<in> set kept" by blast
    then show "entrySummary (n, ps) \<in> set (summaries ?r)" by (simp add: reconcile_eq)
  qed
  have sn: "suppliedNames (jp raw) = map fst kept"
    using filterEntries_names[OF k] assms(1,2) by (simp add: suppliedNames_def)
  have nm: "name ` set (map entrySummary kept) = set (map fst kept)"
    using name_entrySummary[of kept] by (metis list.set_map)
  note cnt = try_name_count[OF t]
  have b: "\<forall>rn\<in>set roster. rn \<notin> set (suppliedNames (jp raw)) \<longrightarrow>
              placeholder noSummaryText rn \<in> set (summaries ?r) \<and>
              length (filter (\<lambda>s. name s = rn) (summaries ?r)) = 1"
  proof (intro ballI impI)
    fix rn assume rn: "rn \<in> set roster" and ns: "rn \<notin> set (suppliedNames (jp raw))"
    have "rn \<in> set (missingPlayers roster (map entrySummary kept))"
      using rn ns unfolding missingPlayers_eq sn nm[symmetric] by (simp add: set_newSet)
    then have m: "placeholder noSummaryText rn \<in> set (summaries ?r)"
      by (simp add: reconcile_eq)
    from ns have "count_list (suppliedNames (jp raw)) rn = 0" by (simp add: count_list_0_iff)
    with cnt[of rn] rn ns have "length (filter (\<lambda>s. name s = rn) (summaries ?r)) = 1" by simp
    with m show "placeholder noSummaryText rn \<in> set (summaries ?r) \<and>
              length (filter (\<lambda>s. name s = rn) (summaries ?r)) = 1" by blast
  qed
  have c: "\<forall>rn\<in>set roster. rn \<in> set (suppliedNames (jp raw)) \<longrightarrow>
              length (filter (\<lambda>s. name s = rn) (summaries ?r)) =
                count_list (suppliedNames (jp raw)) rn"
    using cnt by simp
  from p a b c show ?thesis by blast
qed

text \<open>
  Roster \<^verbatim>\<open>["Mira","mira"]\<close>; the model names its entries \<^verbatim>\<open>mira\<close> and
  \<^verbatim>\<open>" Mira"\<close>. The roster name \<^verbatim>\<open>mira\<close> is matched by the first entry and gets
  no placeholder. The roster name \<^verbatim>\<open>Mira\<close> differs from the first entry's name in
  letter case only and from the second's in a leading blank only: it is not matched, so
  the result holds both entries and the placeholder for Mira.
\<close>

theorem parseSummaries_exact_names_witness:
  \<open>parseSummaries exampleParse
     ''{"players":[{"name":"mira","points":["Found a key"]},{"name":" Mira","points":[" "]}]}''
     [''Mira'', ''mira''] =
     Inr \<lparr>overallSummary = noOverallText,
          summaries = [\<lparr>name = ''mira'', points = [''Found a key'']\<rparr>,
                       \<lparr>name = '' Mira'', points = []\<rparr>,
                       \<lparr>name = ''Mira'', points = [noSummaryText]\<rparr>]\<rparr> \<and>
   suppliedNames (exampleParse
     ''{"players":[{"name":"mira","points":["Found a key"]},{"name":" Mira","points":[" "]}]}'') =
     [''mira'', '' Mira''] \<and>
   toLowerCase ''mira'' = toLowerCase ''Mira'' \<and> trim '' Mira'' = trim ''Mira''\<close>
proof -
  let ?raw = \<open>''{"players":[{"name":"mira","points":["Found a key"]},{"name":" Mira","points":[" "]}]}''\<close>
  let ?es = "[VObject [(''name'', VString ''mira''), (''points'', VArray [VString ''Found a key''])],
              VObject [(''name'', VString '' Mira''), (''points'', VArray [VString '' ''])]]"
  let ?r = "\<lparr>overallSummary = noOverallText,
          summaries = [\<lparr>name = ''mira'', points = [''Found a key'']\<rparr>,
                       \<lparr>name = '' Mira'', points = []\<rparr>,
                       \<lparr>name = ''Mira'', points = [noSummaryText]\<rparr>]\<rparr>"
  have p: "exampleParse ?raw = Some (VObject [(''players'', VArray ?es)])"
    by (simp add: exampleParse_def)
  have m: "map_of [(''players'', VArray ?es)] ''players'' = Some (VArray ?es)" by simp
  have n: "VNull \<notin> set ?es" by simp
  have sn: "suppliedNames (exampleParse ?raw) = [''mira'', '' Mira'']"
    by (simp add: p suppliedNames_def)
  have e: "parseSummaries exampleParse ?raw [''Mira'', ''mira''] = Inr ?r"
    by (simp add: parse_eval)
  from parseSummaries_exact_names[of exampleParse ?raw _ ?es "[''Mira'', ''mira'']", OF p m n] e
  have cnt: "length (filter (\<lambda>s. name s = ''Mira'') (summaries ?r)) = 1 \<and>
        length (filter (\<lambda>s. name s = ''mira'') (summaries ?r)) = 1"
    by (simp add: sn)
  have l: "toLowerCase ''mira'' = toLowerCase ''Mira''"
    by (simp add: toLowerCase_def toLowerCase_char_def)
  have w: "trim '' Mira'' = trim ''Mira''"
    by (simp add: trim_def isWhiteSpace_def)
  from e sn l w cnt show ?thesis by simp
qed

section \<open>The frame emitter\<close>

lemma emit1_closed:
  "responseEnded s \<or> writableEnded (res s) \<Longrightarrow> emit1 e s = s"
  by (cases e) (auto simp: sendProgress_def sendError_def sendResult_def writeLine_def endResponse_def)

lemma emit1_inv: "emitInv s \<Longrightarrow> emitInv (emit1 e s)"
proof (cases "responseEnded s \<or> writableEnded (res s)")
  case True
  assume "emitInv s"
  with emit1_closed[OF True] show ?thesis by simp
next
  case False
  assume i: "emitInv s"
  with False have nt: "list_all (\<lambda>f. \<not> isTerminal f) (frames (res s))"
    by (auto simp: emitInv_def list_all_iff)
  from False nt show ?thesis
    by (cases e)
       (auto simp: emitInv_def sendProgress_def sendError_def sendResult_def writeLine_def
          endResponse_def list_all_iff)
qed

lemma emitAll_inv: "emitInv s \<Longrightarrow> emitInv (emitAll es s)"
  unfolding emitAll_def by (induction es arbitrary: s) (auto simp: emit1_inv)

lemma butlast_terminal_count:
  "list_all (\<lambda>f. \<not> isTerminal f) (butlast fs) \<Longrightarrow> length (filter isTerminal fs) \<le> 1"
proof (cases fs rule: rev_cases)
  case Nil
  then show ?thesis by simp
next
  case (snoc ys y)
  assume "list_all (\<lambda>f. \<not> isTerminal f) (butlast fs)"
  with snoc have "filter isTerminal ys = []" by (simp add: list_all_iff filter_empty_conv)
  with snoc show ?thesis by simp
qed

text \<open>
  Claim C8: starting with nothing written, after any sequence of calls of
  \<open>sendProgress\<close>, \<open>sendError\<close> and \<open>sendResult\<close> the body holds at most one
  terminal frame (result or error), no frame before the last one is terminal, and once a
  terminal frame is there every further call of a sender leaves the state as it is.
\<close>

theorem emitter_one_terminal:
  assumes "frames (res s) = []"
  shows "length (filter isTerminal (frames (res (emitAll es s)))) \<le> 1 \<and>
         list_all (\<lambda>f. \<not> isTerminal f) (butlast (frames (res (emitAll es s)))) \<and>
         (\<forall>e. (\<exists>f\<in>set (frames (res (emitAll es s))). isTerminal f) \<longrightarrow>
                emit1 e (emitAll es s) = emitAll es s)"
proof -
  from assms have "emitInv s" by (simp add: emitInv_def)
  then have i: "emitInv (emitAll es s)" by (rule emitAll_inv)
  then have b: "list_all (\<lambda>f. \<not> isTerminal f) (butlast (frames (res (emitAll es s))))"
    by (simp add: emitInv_def)
  have c: "\<forall>e. (\<exists>f\<in>set (frames (res (emitAll es s))). isTerminal f) \<longrightarrow>
                emit1 e (emitAll es s) = emitAll es s"
    using i emit1_closed by (auto simp: emitInv_def)
  from butlast_terminal_count[OF b] b c show ?thesis by blast
qed

lemmas emit_eval =
  emitAll_def sendProgress_def sendError_def sendResult_def writeLine_def endResponse_def
  freshState_def freshResponse_def

text \<open>
  A progress frame, an error frame, and then two more calls that write nothing.
\<close>

theorem emitter_one_terminal_witness:
  "frames (res (freshState emptyDisk)) = [] \<and>
   frames (res (emitAll [EmitProgress ''Parsing upload'' [], EmitError (Text ''Audio file is required'')]
             (freshState emptyDisk))) =
     [Progress ''Parsing upload'' [], ErrorFrame (Text ''Audio file is required'')] \<and>
   frames (res (emitAll [EmitProgress ''Parsing upload'' [], EmitError (Text ''Audio file is required''),
                         EmitProgress ''Summaries ready'' [], EmitError (Text ''Transcription failed'')]
             (freshState emptyDisk))) =
     [Progress ''Parsing upload'' [], ErrorFrame (Text ''Audio file is required'')]"
proof -
  have h: "frames (res (freshState emptyDisk)) = []"
    by (simp add: freshState_def freshResponse_def)
  let ?es = "[EmitProgress ''Parsing upload'' [], EmitError (Text ''Audio file is required'')]"
  have f: "frames (res (emitAll ?es (freshState emptyDisk))) =
     [Progress ''Parsing upload'' [], ErrorFrame (Text ''Audio file is required'')]"
    by (simp add: emit_eval)
  from emitter_one_terminal[OF h, of ?es] f
  have n: "\<And>e. emit1 e (emitAll ?es (freshState emptyDisk)) = emitAll ?es (freshState emptyDisk)"
    by simp
  have "emitAll (?es @ [EmitProgress ''Summaries ready'' [], EmitError (Text ''Transcription failed'')])
          (freshState emptyDisk) = emitAll ?es (freshState emptyDisk)"
    unfolding emitAll_def foldl_append using n by (simp add: emitAll_def)
  with h f show ?thesis by simp
qed

section \<open>Extension resolution\<close>

lemma dot_not_alnum: "\<not> isAlnum CHR ''.''"
  by (simp add: isAlnum_def)

lemma regexExec_suffix:
  assumes "suf \<noteq> []" and "list_all isAlnum suf"
  shows "regexExec (pre @ ''.'' @ suf) = Some suf"
proof (induction pre)
  case Nil
  from assms show ?case by simp
next
  case (Cons c pre)
  have "\<not> list_all isAlnum (pre @ ''.'' @ suf)"
    using dot_not_alnum by (simp add: list_all_iff)
  then have "matchAt (c # pre @ ''.'' @ suf) = None" by simp
  with Cons show ?case by simp
qed

lemma regexExec_Some:
  "regexExec f = Some g \<Longrightarrow> \<exists>pre. f = pre @ ''.'' @ g \<and> g \<noteq> [] \<and> list_all isAlnum g"
proof (induction f)
  case Nil
  then show ?case by simp
next
  case (Cons c f)
  show ?case
  proof (cases "matchAt (c # f)")
    case None
    with Cons.prems have "regexExec f = Some g" by simp
    from Cons.IH[OF this] obtain pre where "f = pre @ ''.'' @ g \<and> g \<noteq> [] \<and> list_all isAlnum g"
      by blast
    then have "c # f = (c # pre) @ ''.'' @ g \<and> g \<noteq> [] \<and> list_all isAlnum g" by simp
    then show ?thesis by blast
  next
    case (Some h)
    with Cons.prems have "h = g" by simp
    with Some have "c = CHR ''.'' \<and> f = g \<and> g \<noteq> [] \<and> list_all isAlnum g"
      by (auto split: if_splits)
    then have "c # f = [] @ ''.'' @ g \<and> g \<noteq> [] \<and> list_all isAlnum g" by simp
    then show ?thesis by blast
  qed
qed

text \<open>
  A declared type that meets an inherited property is not mapped to the empty string.
\<close>

lemma extensionFromMime_inherited:
  "extensionFromMime (Some ''Constructor'') = ''function Object() { [native code] }'' \<and>
   extensionFromMime (Some ''__proto__'') = ''[object Object]'' \<and>
   extensionFromMime (Some ''text/plain'') = []"
  by (simp add: extensionFromMime_def mimeTable_def inheritedProperties_def toLowerCase_def
      toLowerCase_char_def)

text \<open>
  Claim C7: the extension of a file name that ends with a dot and a non-empty
  alphanumeric suffix is that suffix in lower case (the suffix holds no dot, so it
  follows the last dot), and a name of any other form has none; an extension found in
  the name is the resolved one whatever the declared MIME type is, so \<^verbatim>\<open>voice.MP3\<close>
  resolves to \<^verbatim>\<open>mp3\<close> for every MIME type; and when the lower-cased temp path
  already ends with the dot and the resolved extension, the path is returned and the
  storage, with its log of operations, is untouched: no rename, no copy, no second file.
\<close>

theorem extension_resolution:
  "(suf \<noteq> [] \<and> list_all isAlnum suf \<longrightarrow>
      extensionFromFilename (Some (pre @ ''.'' @ suf)) = toLowerCase suf) \<and>
   ((\<nexists>pre suf. f = pre @ ''.'' @ suf \<and> suf \<noteq> [] \<and> list_all isAlnum suf) \<longrightarrow>
      extensionFromFilename (Some f) = []) \<and>
   (extensionFromFilename (originalFilename file) \<noteq> [] \<longrightarrow>
      resolvedExtension file = extensionFromFilename (originalFilename file)) \<and>
   resolvedExtension
     \<lparr>filepath = p, originalFilename = Some ''voice.MP3'', mimetype = m, size_bytes = n\<rparr> = ''mp3'' \<and>
   (resolvedExtension file \<noteq> [] \<and>
    endsWith (toLowerCase (filepath file)) (''.'' @ resolvedExtension file) \<longrightarrow>
      ensureExtensionOnPath file d = (Inr (filepath file), d))"
proof -
  have a: "suf \<noteq> [] \<and> list_all isAlnum suf \<longrightarrow>
      extensionFromFilename (Some (pre @ ''.'' @ suf)) = toLowerCase suf"
    using regexExec_suffix[of suf pre] by (auto simp: extensionFromFilename_def)
  have b: "(\<nexists>pre suf. f = pre @ ''.'' @ suf \<and> suf \<noteq> [] \<and> list_all isAlnum suf) \<longrightarrow>
      extensionFromFilename (Some f) = []"
  proof
    assume n: "\<nexists>pre suf. f = pre @ ''.'' @ suf \<and> suf \<noteq> [] \<and> list_all isAlnum suf"
    have "regexExec f = None"
    proof (cases "regexExec f")
      case None
      then show ?thesis .
    next
      case (Some g)
      from regexExec_Some[OF this] n show ?thesis by blast
    qed
    then show "extensionFromFilename (Some f) = []" by (simp add: extensionFromFilename_def)
  qed
  have c: "extensionFromFilename (originalFilename file) \<noteq> [] \<longrightarrow>
      resolvedExtension file = extensionFromFilename (originalFilename file)"
    by (simp add: resolvedExtension_def Let_def)
  have "extensionFromFilename (Some ''voice.MP3'') = ''mp3''"
    by (simp add: extensionFromFilename_def isAlnum_def toLowerCase_def toLowerCase_char_def)
  then have v: "resolvedExtension
     \<lparr>filepath = p, originalFilename = Some ''voice.MP3'', mimetype = m, size_bytes = n\<rparr> = ''mp3''"
    by (simp add: resolvedExtension_def Let_def)
  have e: "resolvedExtension file \<noteq> [] \<and>
    endsWith (toLowerCase (filepath file)) (''.'' @ resolvedExtension file) \<longrightarrow>
      ensureExtensionOnPath file d = (Inr (filepath file), d)"
    by (simp add: ensureExtensionOnPath_def Let_def)
  from a b c v e show ?thesis by blast
qed

text \<open>
  \<^verbatim>\<open>session.final.Ogg\<close> gives \<^verbatim>\<open>ogg\<close> and \<^verbatim>\<open>notes\<close> gives nothing; an upload named
  \<^verbatim>\<open>voice.MP3\<close> and declared \<^verbatim>\<open>audio/wav\<close> resolves to \<^verbatim>\<open>mp3\<close>, not to the
  \<^verbatim>\<open>wav\<close> of the table, and its temp path \<^verbatim>\<open>/tmp/upload_1.mp3\<close> is kept.
\<close>

theorem extension_resolution_witness:
  "extensionFromFilename (Some ''session.final.Ogg'') = ''ogg'' \<and>
   extensionFromFilename (Some ''notes'') = [] \<and>
   extensionFromMime (Some ''audio/wav'') = ''wav'' \<and>
   resolvedExtension
     \<lparr>filepath = ''/tmp/upload_1.mp3'', originalFilename = Some ''voice.MP3'',
      mimetype = Some ''audio/wav'', size_bytes = 4\<rparr> = ''mp3'' \<and>
   ensureExtensionOnPath
     \<lparr>filepath = ''/tmp/upload_1.mp3'', originalFilename = Some ''voice.MP3'',
      mimetype = Some ''audio/wav'', size_bytes = 4\<rparr>
     (storeUploads [(''/tmp/upload_1.mp3'', 4)] emptyDisk) =
     (Inr ''/tmp/upload_1.mp3'', storeUploads [(''/tmp/upload_1.mp3'', 4)] emptyDisk)"
proof -
  let ?file = "\<lparr>filepath = ''/tmp/upload_1.mp3'', originalFilename = Some ''voice.MP3'',
      mimetype = Some ''audio/wav'', size_bytes = 4\<rparr>"
  let ?d = "storeUploads [(''/tmp/upload_1.mp3'', 4)] emptyDisk"
  note t = extension_resolution[of "''Ogg''" "''session.final''" "''notes''" ?file
      "''/tmp/upload_1.mp3''" "Some ''audio/wav''" 4 ?d]
  have h1: "''Ogg'' \<noteq> [] \<and> list_all isAlnum ''Ogg''" by (simp add: isAlnum_def)
  have h2: "\<nexists>pre suf. ''notes'' = pre @ ''.'' @ suf \<and> suf \<noteq> [] \<and> list_all isAlnum suf"
  proof
    assume "\<exists>pre suf. ''notes'' = pre @ ''.'' @ suf \<and> suf \<noteq> [] \<and> list_all isAlnum suf"
    then obtain pre suf where "''notes'' = pre @ ''.'' @ suf" by blast
    then have "set ''notes'' = set (pre @ ''.'' @ suf)" by simp
    then have "CHR ''.'' \<in> set ''notes''" by simp
    then show False by simp
  qed
  have r: "resolvedExtension ?file = ''mp3''" using t by blast
  have h3: "extensionFromFilename (originalFilename ?file) \<noteq> []"
    by (simp add: extensionFromFilename_def isAlnum_def toLowerCase_def toLowerCase_char_def)
  have h5: "resolvedExtension ?file \<noteq> [] \<and>
    endsWith (toLowerCase (filepath ?file)) (''.'' @ resolvedExtension ?file)"
    by (simp add: r endsWith_def toLowerCase_def toLowerCase_char_def)
  have w: "extensionFromMime (Some ''audio/wav'') = ''wav''"
    by (simp add: extensionFromMime_def mimeTable_def inheritedProperties_def toLowerCase_def
        toLowerCase_char_def)
  have l: "toLowerCase ''Ogg'' = ''ogg''" by (simp add: toLowerCase_def toLowerCase_char_def)
  from t h1 l have c1: "extensionFromFilename (Some ''session.final.Ogg'') = ''ogg''" by simp
  from t h2 have c2: "extensionFromFilename (Some ''notes'') = []" by blast
  from t h3 have c3: "resolvedExtension ?file = extensionFromFilename (originalFilename ?file)"
    by blast
  from t h5 have "ensureExtensionOnPath ?file ?d = (Inr (filepath ?file), ?d)" by blast
  then have c5: "ensureExtensionOnPath ?file ?d = (Inr ''/tmp/upload_1.mp3'', ?d)" by simp
  from c1 c2 w r c5 show ?thesis by blast
qed

section \<open>The handler's response\<close>

lemma streamOpen_disk [simp]: "streamOpen (s\<lparr>disk := d\<rparr>) = streamOpen s"
  by (simp add: streamOpen_def)

lemma streamOpen_network [simp]: "streamOpen (s\<lparr>network := n\<rparr>) = streamOpen s"
  by (simp add: streamOpen_def)

lemma streamOpen_sendProgress: "streamOpen s \<Longrightarrow> streamOpen (sendProgress m x s)"
  by (simp add: streamOpen_def sendProgress_def writeLine_def)

lemma streamClosed_sendError: "streamOpen s \<Longrightarrow> streamClosed (sendError m s)"
  by (simp add: streamOpen_def streamClosed_def sendError_def writeLine_def endResponse_def
      oneTerminalLast_def)

lemma streamClosed_sendResult: "streamOpen s \<Longrightarrow> streamClosed (sendResult p s)"
  by (simp add: streamOpen_def streamClosed_def sendResult_def writeLine_def endResponse_def
      oneTerminalLast_def)

lemma meta_sendProgress [simp]: "responseMeta (res (sendProgress m x s)) = responseMeta (res s)"
  by (simp add: responseMeta_def sendProgress_def writeLine_def)

lemma meta_sendError [simp]: "responseMeta (res (sendError m s)) = responseMeta (res s)"
  by (simp add: responseMeta_def sendError_def writeLine_def endResponse_def)

lemma meta_sendResult [simp]: "responseMeta (res (sendResult p s)) = responseMeta (res s)"
  by (simp add: responseMeta_def sendResult_def writeLine_def endResponse_def)

lemma ingest_stream:
  assumes "streamOpen s" and "ingest jp rq s = (out, t)"
  shows "responseMeta (res t) = responseMeta (res s) \<and>
         (if out = Returned then streamClosed t else streamOpen t)"
proof -
  let ?s1 = "(sendProgress ''Parsing upload'' [] s)\<lparr>disk := storeUploads (uploads rq) (disk (sendProgress ''Parsing upload'' [] s))\<rparr>"
  have o: "streamOpen ?s1" using assms(1) by (simp add: streamOpen_sendProgress)
  have m: "responseMeta (res ?s1) = responseMeta (res s)" by simp
  from assms(2) have
    "(t = ?s1 \<and> out \<noteq> Returned) \<or> (\<exists>msg. t = sendError msg ?s1 \<and> out = Returned)"
    by (auto simp: ingest_def parseMultipart_def Let_def
             split: sum.splits if_splits option.splits)
  then show ?thesis
  proof
    assume "t = ?s1 \<and> out \<noteq> Returned"
    with o m show ?thesis by simp
  next
    assume "\<exists>msg. t = sendError msg ?s1 \<and> out = Returned"
    then obtain msg where "t = sendError msg ?s1" and "out = Returned" by blast
    with streamClosed_sendError[OF o] m show ?thesis by simp
  qed
qed

lemma transcribe_stream:
  assumes "streamOpen s" and "transcribe rq p s = (r, t)"
  shows "responseMeta (res t) = responseMeta (res s) \<and> streamOpen t"
proof -
  obtain r1 s1 where a: "transcribe_try rq p s = (r1, s1)" by (cases "transcribe_try rq p s")
  have "responseMeta (res s1) = responseMeta (res s) \<and> streamOpen s1"
    using a assms(1)
    by (auto simp: transcribe_try_def Let_def streamOpen_sendProgress
             split: prod.splits sum.splits if_splits option.splits jsval.splits)
  moreover from a assms(2) have "t = s1\<lparr>disk := unlinkQuietly p (disk s1)\<rparr>"
    by (simp add: transcribe_def)
  ultimately show ?thesis by simp
qed

lemma summarise_stream:
  assumes "streamOpen s" and "summarise jp rq cp tx s = (out, t)"
  shows "responseMeta (res t) = responseMeta (res s) \<and>
         (case out of Thrown e \<Rightarrow> streamOpen t | _ \<Rightarrow> streamClosed t)"
  using assms
  by (auto simp: summarise_def Let_def streamOpen_sendProgress streamClosed_sendError
        streamClosed_sendResult
      split: sum.splits if_splits option.splits)

lemma handler_try_stream:
  assumes "streamOpen s" and "handler_try jp rq s = (out, t)"
  shows "responseMeta (res t) = responseMeta (res s) \<and>
         (case out of Thrown e \<Rightarrow> streamOpen t | _ \<Rightarrow> streamClosed t)"
proof -
  obtain o1 s1 where i: "ingest jp rq s = (o1, s1)" by (cases "ingest jp rq s")
  note i1 = ingest_stream[OF assms(1) i]
  show ?thesis
  proof (cases o1)
    case Returned
    with i assms(2) have "out = Returned \<and> t = s1" by (simp add: handler_try_def)
    with i1 Returned show ?thesis by simp
  next
    case (Thrown e)
    with i assms(2) have "out = Thrown e \<and> t = s1" by (simp add: handler_try_def)
    with i1 Thrown show ?thesis by simp
  next
    case (Next v)
    obtain cp a where v: "v = (cp, a)" by (cases v)
    let ?s2 = "sendProgress ''Preparing audio for transcription'' [] s1"
    from i1 Next have o2: "streamOpen ?s2" and m2: "responseMeta (res ?s2) = responseMeta (res s)"
      by (simp_all add: streamOpen_sendProgress)
    obtain r d where e: "ensureExtensionOnPath a (disk ?s2) = (r, d)"
      by (cases "ensureExtensionOnPath a (disk ?s2)")
    show ?thesis
    proof (cases r)
      case (Inl err)
      with i Next v e assms(2) have "out = Thrown err \<and> t = ?s2\<lparr>disk := d\<rparr>"
        by (simp add: handler_try_def Let_def)
      with o2 m2 show ?thesis by simp
    next
      case (Inr p)
      obtain r3 s3 where tr: "transcribe rq p (?s2\<lparr>disk := d\<rparr>) = (r3, s3)"
        by (cases "transcribe rq p (?s2\<lparr>disk := d\<rparr>)")
      from o2 have "streamOpen (?s2\<lparr>disk := d\<rparr>)" by simp
      from transcribe_stream[OF this tr] m2
      have o3: "streamOpen s3" and m3: "responseMeta (res s3) = responseMeta (res s)" by simp_all
      show ?thesis
      proof (cases r3)
        case (Inl err)
        with i Next v e Inr tr assms(2) have "out = Thrown err \<and> t = s3"
          by (simp add: handler_try_def Let_def)
        with o3 m3 show ?thesis by simp
      next
        case (Inr tx)
        with i Next v e \<open>r = Inr p\<close> tr assms(2) have "summarise jp rq cp tx s3 = (out, t)"
          by (simp add: handler_try_def Let_def)
        from summarise_stream[OF o3 this] m3 show ?thesis by simp
      qed
    qed
  qed
qed

lemma handler_stream:
  assumes "req_method rq = ''POST''" and "ensureEnv rq = Inr ()"
  shows "responseMeta (res (handler jp rq (freshState d))) = (streamHeaders, 200, None) \<and>
         streamClosed (handler jp rq (freshState d))"
proof -
  let ?s0 = "(freshState d)\<lparr>res := status 200
                        (setHeader ''Connection'' ''keep-alive''
                          (setHeader ''Cache-Control'' ''no-cache, no-transform''
                            (setHeader ''Content-Type'' ''application/json; charset=utf-8''
                              (res (freshState d))))), responseEnded := False\<rparr>"
  have o: "streamOpen ?s0"
    by (simp add: streamOpen_def freshState_def freshResponse_def status_def setHeader_def)
  have m: "responseMeta (res ?s0) = (streamHeaders, 200, None)"
    by (simp add: responseMeta_def freshState_def freshResponse_def status_def setHeader_def
        streamHeaders_def)
  obtain out t where h: "handler_try jp rq ?s0 = (out, t)" by (cases "handler_try jp rq ?s0")
  note ht = handler_try_stream[OF o h]
  show ?thesis
  proof (cases out)
    case (Thrown e)
    with ht have ot: "streamOpen t" by simp
    then have "\<not> responseEnded t \<and> \<not> writableEnded (res t)" by (simp add: streamOpen_def)
    with assms h Thrown have "handler jp rq (freshState d) = sendError (errorMessage e) t"
      by (simp add: handler_def Let_def)
    with streamClosed_sendError[OF ot] ht m show ?thesis by simp
  next
    case Returned
    with assms h have "handler jp rq (freshState d) = t" by (simp add: handler_def Let_def)
    with ht m Returned show ?thesis by simp
  next
    case (Next u)
    with assms h have "handler jp rq (freshState d) = t" by (simp add: handler_def Let_def)
    with ht m Next show ?thesis by simp
  qed
qed

lemma cleanedPlayersOf_Nil [simp]: "cleanedPlayersOf [] = Inr []"
  by (simp add: cleanedPlayersOf_def)

lemma disk_sendProgress [simp]: "disk (sendProgress m x s) = disk s"
  by (simp add: sendProgress_def writeLine_def)

lemma last_sendError: "streamOpen s \<Longrightarrow> last (frames (res (sendError m s))) = ErrorFrame m"
  by (simp add: streamOpen_def sendError_def writeLine_def endResponse_def)

lemma last_sendResult: "streamOpen s \<Longrightarrow> last (frames (res (sendResult p s))) = Result p"
  by (simp add: streamOpen_def sendResult_def writeLine_def endResponse_def)

lemma ingest_Next:
  assumes "ingest jp rq s = (Next (cp, a), t)"
  shows "\<exists>f. multipart rq = Inr f \<and>
           cleanedPlayersOf (playerNamesOf jp (fields_players f)) = Inr cp \<and> cp \<noteq> [] \<and>
           audioFileOf f = Some a \<and> filepath a \<noteq> [] \<and>
           disk t = storeUploads (uploads rq) (disk s)"
  using assms
  by (auto simp: ingest_def parseMultipart_def Let_def
      split: sum.splits if_splits option.splits)

lemma ingest_Returned:
  assumes "streamOpen s" and "ingest jp rq s = (Returned, t)"
  shows "isErrorFrame (last (frames (res t)))"
proof -
  let ?s1 = "(sendProgress ''Parsing upload'' [] s)\<lparr>disk := storeUploads (uploads rq) (disk (sendProgress ''Parsing upload'' [] s))\<rparr>"
  have o: "streamOpen ?s1" using assms(1) by (simp add: streamOpen_sendProgress)
  from assms(2) have "\<exists>msg. t = sendError msg ?s1"
    by (auto simp: ingest_def parseMultipart_def Let_def
             split: sum.splits if_splits option.splits)
  then obtain msg where "t = sendError msg ?s1" by blast
  with last_sendError[OF o] show ?thesis by simp
qed

lemma transcribe_Inr:
  assumes "transcribe rq p s = (Inr tx, t)"
  shows "\<exists>n tt. files (disk s) p = Some n \<and> n \<noteq> 0 \<and>
           transcription rq = Inr (Some (VString tt)) \<and> tx = trim tt"
  using assms
  by (auto simp: transcribe_def transcribe_try_def fs_stat_def Let_def
      split: prod.splits sum.splits if_splits option.splits jsval.splits)

lemma summarise_kind:
  assumes "streamOpen s" and "summarise jp rq cp tx s = (out, t)"
  shows "(out = Returned \<longrightarrow> isErrorFrame (last (frames (res t)))) \<and>
         (\<forall>u. out = Next u \<longrightarrow>
            isResultFrame (last (frames (res t))) \<and> tx \<noteq> [] \<and>
            (\<exists>c. completion rq = Inr (Some c) \<and> c \<noteq> []))"
  using assms
  by (auto simp: summarise_def Let_def streamOpen_sendProgress last_sendError last_sendResult
      split: sum.splits if_splits option.splits)

lemma handler_try_kind:
  assumes "streamOpen s" and "handler_try jp rq s = (out, t)"
  shows "(out = Returned \<longrightarrow> isErrorFrame (last (frames (res t)))) \<and>
         (\<forall>u. out = Next u \<longrightarrow>
            isResultFrame (last (frames (res t))) \<and> stagesSucceed jp rq (disk s))"
proof -
  obtain o1 s1 where i: "ingest jp rq s = (o1, s1)" by (cases "ingest jp rq s")
  note i1 = ingest_stream[OF assms(1) i]
  show ?thesis
  proof (cases o1)
    case Returned
    with i assms(2) have "out = Returned \<and> t = s1" by (simp add: handler_try_def)
    with ingest_Returned[OF assms(1)] i Returned show ?thesis by simp
  next
    case (Thrown e)
    with i assms(2) have "out = Thrown e" by (simp add: handler_try_def)
    then show ?thesis by simp
  next
    case (Next v)
    obtain cp a where v: "v = (cp, a)" by (cases v)
    from ingest_Next[of jp rq s cp a s1] i Next v obtain f where
      f: "multipart rq = Inr f"
      and c: "cleanedPlayersOf (playerNamesOf jp (fields_players f)) = Inr cp" "cp \<noteq> []"
      and au: "audioFileOf f = Some a" "filepath a \<noteq> []"
      and d: "disk s1 = storeUploads (uploads rq) (disk s)" by auto
    let ?s2 = "sendProgress ''Preparing audio for transcription'' [] s1"
    from i1 Next have o2: "streamOpen ?s2" by (simp add: streamOpen_sendProgress)
    obtain r d1 where e: "ensureExtensionOnPath a (disk ?s2) = (r, d1)"
      by (cases "ensureExtensionOnPath a (disk ?s2)")
    then have e': "ensureExtensionOnPath a (storeUploads (uploads rq) (disk s)) = (r, d1)"
      using d by simp
    show ?thesis
    proof (cases r)
      case (Inl err)
      with i Next v e assms(2) have "out = Thrown err"
        by (simp add: handler_try_def Let_def)
      then show ?thesis by simp
    next
      case (Inr p)
      obtain r3 s3 where tr: "transcribe rq p (?s2\<lparr>disk := d1\<rparr>) = (r3, s3)"
        by (cases "transcribe rq p (?s2\<lparr>disk := d1\<rparr>)")
      from o2 have "streamOpen (?s2\<lparr>disk := d1\<rparr>)" by simp
      from transcribe_stream[OF this tr] have o3: "streamOpen s3" by simp
      show ?thesis
      proof (cases r3)
        case (Inl err)
        with i Next v e Inr tr assms(2) have "out = Thrown err"
          by (simp add: handler_try_def Let_def)
        then show ?thesis by simp
      next
        case (Inr tx)
        with i Next v e \<open>r = Inr p\<close> tr assms(2) have su: "summarise jp rq cp tx s3 = (out, t)"
          by (simp add: handler_try_def Let_def)
        note k = summarise_kind[OF o3 su]
        from transcribe_Inr[of rq p "?s2\<lparr>disk := d1\<rparr>" tx s3] tr Inr obtain n tt where
          tf: "files d1 p = Some n" "n \<noteq> 0" "transcription rq = Inr (Some (VString tt))"
            "tx = trim tt" by auto
        have "\<forall>u. out = Next u \<longrightarrow> stagesSucceed jp rq (disk s)"
        proof (intro allI impI)
          fix u assume "out = Next u"
          with k obtain c0 where "tx \<noteq> []" "completion rq = Inr (Some c0)" "c0 \<noteq> []" by auto
          with f c au e' \<open>r = Inr p\<close> tf show "stagesSucceed jp rq (disk s)"
            by (simp add: stagesSucceed_def)
        qed
        with k show ?thesis by simp
      qed
    qed
  qed
qed

lemma handler_try_succeeds:
  assumes "stagesSucceed jp rq (disk s)"
  shows "\<exists>u t. handler_try jp rq s = (Next u, t)"
proof -
  from assms obtain f where f: "multipart rq = Inr f"
    by (auto simp: stagesSucceed_def split: sum.splits)
  from assms f obtain cp where
    c: "cleanedPlayersOf (playerNamesOf jp (fields_players f)) = Inr cp" "cp \<noteq> []"
    by (auto simp: stagesSucceed_def split: sum.splits)
  from c have pn: "playerNamesOf jp (fields_players f) \<noteq> []" by auto
  from assms f c obtain a where au: "audioFileOf f = Some a" "filepath a \<noteq> []"
    by (auto simp: stagesSucceed_def split: option.splits)
  from assms f c au obtain p d1 where
    e: "ensureExtensionOnPath a (storeUploads (uploads rq) (disk s)) = (Inr p, d1)"
    by (auto simp: stagesSucceed_def split: prod.splits sum.splits)
  from assms f c au e obtain n tt c0 where
    r: "files d1 p = Some n" "n \<noteq> 0" "transcription rq = Inr (Some (VString tt))"
       "trim tt \<noteq> []" "completion rq = Inr (Some c0)" "c0 \<noteq> []"
    by (auto simp: stagesSucceed_def split: option.splits sum.splits jsval.splits)
  from parseSummaries_returns[of jp c0 cp] obtain ps where
    ps: "parseSummaries jp c0 cp = Inr ps" by blast
  have i: "ingest jp rq s =
      (Next (cp, a), (sendProgress ''Parsing upload'' [] s)\<lparr>disk := storeUploads (uploads rq) (disk s)\<rparr>)"
    using f c pn au by (simp add: ingest_def parseMultipart_def Let_def)
  have t: "disk s' = d1 \<Longrightarrow> \<exists>t'. transcribe rq p s' = (Inr (trim tt), t')" for s' :: hstate
    using r by (simp add: transcribe_def transcribe_try_def fs_stat_def Let_def)
  let ?s2 = "(sendProgress ''Preparing audio for transcription'' []
      ((sendProgress ''Parsing upload'' [] s)\<lparr>disk := storeUploads (uploads rq) (disk s)\<rparr>))\<lparr>disk := d1\<rparr>"
  from t[of ?s2] obtain t' where t': "transcribe rq p ?s2 = (Inr (trim tt), t')" by auto
  have "\<exists>u t. summarise jp rq cp (trim tt) t' = (Next u, t)"
    using r ps by (simp add: summarise_def Let_def)
  then show ?thesis
    using i e t' by (simp add: handler_try_def Let_def)
qed

lemma handler_last_frame:
  assumes "req_method rq = ''POST''" and "ensureEnv rq = Inr ()"
  shows "if stagesSucceed jp rq d
         then isResultFrame (last (frames (res (handler jp rq (freshState d)))))
         else isErrorFrame (last (frames (res (handler jp rq (freshState d)))))"
proof -
  let ?s0 = "(freshState d)\<lparr>res := status 200
                        (setHeader ''Connection'' ''keep-alive''
                          (setHeader ''Cache-Control'' ''no-cache, no-transform''
                            (setHeader ''Content-Type'' ''application/json; charset=utf-8''
                              (res (freshState d))))), responseEnded := False\<rparr>"
  have o: "streamOpen ?s0"
    by (simp add: streamOpen_def freshState_def freshResponse_def status_def setHeader_def)
  have d: "disk ?s0 = d" by (simp add: freshState_def)
  obtain out t where h: "handler_try jp rq ?s0 = (out, t)" by (cases "handler_try jp rq ?s0")
  note ht = handler_try_stream[OF o h]
  note hk = handler_try_kind[OF o h]
  show ?thesis
  proof (cases out)
    case (Thrown e)
    with ht have ot: "streamOpen t" by simp
    then have "\<not> responseEnded t \<and> \<not> writableEnded (res t)" by (simp add: streamOpen_def)
    with assms h Thrown have "handler jp rq (freshState d) = sendError (errorMessage e) t"
      by (simp add: handler_def Let_def)
    with last_sendError[OF ot] have
      e: "isErrorFrame (last (frames (res (handler jp rq (freshState d)))))" by simp
    have "\<not> stagesSucceed jp rq d"
      using handler_try_succeeds[of jp rq ?s0] h Thrown d by auto
    with e show ?thesis by simp
  next
    case Returned
    with assms h have "handler jp rq (freshState d) = t" by (simp add: handler_def Let_def)
    with hk Returned have
      e: "isErrorFrame (last (frames (res (handler jp rq (freshState d)))))" by simp
    have "\<not> stagesSucceed jp rq d"
      using handler_try_succeeds[of jp rq ?s0] h Returned d by auto
    with e show ?thesis by simp
  next
    case (Next u)
    with assms h have "handler jp rq (freshState d) = t" by (simp add: handler_def Let_def)
    with hk Next d show ?thesis by simp
  qed
qed

lemmas handler_eval =
  handler_def handler_try_def ingest_def parseMultipart_def storeUploads_def
  playerNamesOf_def decodeEntry_def cleanedPlayersOf_def audioFileOf_def ensureEnv_def
  transcribe_def transcribe_try_def summarise_def
  ensureExtensionOnPath_def resolvedExtension_def extensionFromFilename_def
  extensionFromMime_def mimeTable_def inheritedProperties_def isAlnum_def toLowerCase_def
  toLowerCase_char_def
  endsWith_def fs_rename_def fs_copyFile_def fs_unlink_def fs_stat_def unlinkQuietly_def
  sendProgress_def sendError_def sendResult_def writeLine_def endResponse_def
  setHeader_def status_def json_error_def freshState_def freshResponse_def emptyDisk_def
  exampleRequest_def streamHeaders_def Let_def

lemmas stream_eval =
  handler_def handler_try_def ingest_def parseMultipart_def
  sendProgress_def sendError_def writeLine_def endResponse_def
  setHeader_def status_def json_error_def freshState_def freshResponse_def Let_def

lemma ensureEnv_cases:
  "ensureEnv rq = Inr () \<or> ensureEnv rq = Inl (Error ''OPENAI_KEY is not configured'')"
  by (simp add: ensureEnv_def split: option.splits)

text \<open>
  Claim C4, amended. Of the failures the claim names, a method mismatch and a missing
  credential are found before the stream starts and are answered with a JSON error body
  and no frame: status 405 with \<^verbatim>\<open>Allow: POST\<close>, and status 500. After these two
  checks the handler sets the streaming headers and status 200 before it decodes the
  body, so from there on the response has no JSON body and its frames end with exactly
  one terminal frame, the last one; an empty roster (no name at all, or only blank
  names) and a missing audio file are each answered with the progress frame and one
  error frame, and so is a body that cannot be decoded, with the message of its error.
  A failure at any stage ends the body with an error frame: the terminal frame is an
  error frame unless every stage succeeds, and then it is the result frame.
\<close>

theorem handler_failure_responses:
  "(req_method rq \<noteq> ''POST'' \<longrightarrow>
      res (handler jp rq (freshState d)) =
        \<lparr>headers = [(''Allow'', ''POST'')], statusCode = 405,
         jsonBody = Some (Text ''Method not allowed''), frames = [], writableEnded = True\<rparr>) \<and>
   (req_method rq = ''POST'' \<and> ensureEnv rq \<noteq> Inr () \<longrightarrow>
      res (handler jp rq (freshState d)) =
        \<lparr>headers = [], statusCode = 500,
         jsonBody = Some (Text ''OPENAI_KEY is not configured''), frames = [],
         writableEnded = True\<rparr>) \<and>
   (req_method rq = ''POST'' \<and> ensureEnv rq = Inr () \<longrightarrow>
      headers (res (handler jp rq (freshState d))) = streamHeaders \<and>
      statusCode (res (handler jp rq (freshState d))) = 200 \<and>
      jsonBody (res (handler jp rq (freshState d))) = None \<and>
      oneTerminalLast (frames (res (handler jp rq (freshState d))))) \<and>
   (req_method rq = ''POST'' \<and> ensureEnv rq = Inr () \<and> multipart rq = Inr f \<and>
    playerNamesOf jp (fields_players f) = [] \<longrightarrow>
      frames (res (handler jp rq (freshState d))) =
        [Progress ''Parsing upload'' [],
         ErrorFrame (Text ''At least one player name is required'')]) \<and>
   (req_method rq = ''POST'' \<and> ensureEnv rq = Inr () \<and> multipart rq = Inr f \<and>
    playerNamesOf jp (fields_players f) \<noteq> [] \<and>
    cleanedPlayersOf (playerNamesOf jp (fields_players f)) = Inr [] \<longrightarrow>
      frames (res (handler jp rq (freshState d))) =
        [Progress ''Parsing upload'' [], ErrorFrame (Text ''Player names cannot be empty'')]) \<and>
   (req_method rq = ''POST'' \<and> ensureEnv rq = Inr () \<and> multipart rq = Inr f \<and>
    cleanedPlayersOf (playerNamesOf jp (fields_players f)) = Inr (c # cs) \<and>
    (audioFileOf f = None \<or> (\<exists>a. audioFileOf f = Some a \<and> filepath a = [])) \<longrightarrow>
      frames (res (handler jp rq (freshState d))) =
        [Progress ''Parsing upload'' [], ErrorFrame (Text ''Audio file is required'')]) \<and>
   (req_method rq = ''POST'' \<and> ensureEnv rq = Inr () \<and> multipart rq = Inl e \<longrightarrow>
      frames (res (handler jp rq (freshState d))) =
        [Progress ''Parsing upload'' [], ErrorFrame (errorMessage e)]) \<and>
   (req_method rq = ''POST'' \<and> ensureEnv rq = Inr () \<and> \<not> stagesSucceed jp rq d \<longrightarrow>
      isErrorFrame (last (frames (res (handler jp rq (freshState d)))))) \<and>
   (req_method rq = ''POST'' \<and> ensureEnv rq = Inr () \<and> stagesSucceed jp rq d \<longrightarrow>
      isResultFrame (last (frames (res (handler jp rq (freshState d))))))"
proof -
  have m: "req_method rq \<noteq> ''POST'' \<longrightarrow>
      res (handler jp rq (freshState d)) =
        \<lparr>headers = [(''Allow'', ''POST'')], statusCode = 405,
         jsonBody = Some (Text ''Method not allowed''), frames = [], writableEnded = True\<rparr>"
    by (simp add: handler_def json_error_def status_def setHeader_def freshState_def
        freshResponse_def)
  have k: "req_method rq = ''POST'' \<and> ensureEnv rq \<noteq> Inr () \<longrightarrow>
      res (handler jp rq (freshState d)) =
        \<lparr>headers = [], statusCode = 500,
         jsonBody = Some (Text ''OPENAI_KEY is not configured''), frames = [],
         writableEnded = True\<rparr>"
    using ensureEnv_cases[of rq]
    by (auto simp: handler_def json_error_def status_def freshState_def freshResponse_def)
  have s: "req_method rq = ''POST'' \<and> ensureEnv rq = Inr () \<longrightarrow>
      headers (res (handler jp rq (freshState d))) = streamHeaders \<and>
      statusCode (res (handler jp rq (freshState d))) = 200 \<and>
      jsonBody (res (handler jp rq (freshState d))) = None \<and>
      oneTerminalLast (frames (res (handler jp rq (freshState d))))"
  proof
    assume "req_method rq = ''POST'' \<and> ensureEnv rq = Inr ()"
    then have "responseMeta (res (handler jp rq (freshState d))) = (streamHeaders, 200, None) \<and>
         streamClosed (handler jp rq (freshState d))"
      using handler_stream[of rq jp d] by blast
    then show "headers (res (handler jp rq (freshState d))) = streamHeaders \<and>
      statusCode (res (handler jp rq (freshState d))) = 200 \<and>
      jsonBody (res (handler jp rq (freshState d))) = None \<and>
      oneTerminalLast (frames (res (handler jp rq (freshState d))))"
      by (simp add: responseMeta_def streamClosed_def)
  qed
  have r1: "req_method rq = ''POST'' \<and> ensureEnv rq = Inr () \<and> multipart rq = Inr f \<and>
    playerNamesOf jp (fields_players f) = [] \<longrightarrow>
      frames (res (handler jp rq (freshState d))) =
        [Progress ''Parsing upload'' [],
         ErrorFrame (Text ''At least one player name is required'')]"
    by (simp add: stream_eval)
  have r2: "req_method rq = ''POST'' \<and> ensureEnv rq = Inr () \<and> multipart rq = Inr f \<and>
    playerNamesOf jp (fields_players f) \<noteq> [] \<and>
    cleanedPlayersOf (playerNamesOf jp (fields_players f)) = Inr [] \<longrightarrow>
      frames (res (handler jp rq (freshState d))) =
        [Progress ''Parsing upload'' [], ErrorFrame (Text ''Player names cannot be empty'')]"
    by (simp add: stream_eval)
  have ne: "cleanedPlayersOf (playerNamesOf jp (fields_players f)) = Inr (c # cs) \<Longrightarrow>
      playerNamesOf jp (fields_players f) \<noteq> []"
    by (auto simp: cleanedPlayersOf_def)
  have r3: "req_method rq = ''POST'' \<and> ensureEnv rq = Inr () \<and> multipart rq = Inr f \<and>
    cleanedPlayersOf (playerNamesOf jp (fields_players f)) = Inr (c # cs) \<and>
    (audioFileOf f = None \<or> (\<exists>a. audioFileOf f = Some a \<and> filepath a = [])) \<longrightarrow>
      frames (res (handler jp rq (freshState d))) =
        [Progress ''Parsing upload'' [], ErrorFrame (Text ''Audio file is required'')]"
    using ne by (auto simp: stream_eval)
  have mp: "req_method rq = ''POST'' \<and> ensureEnv rq = Inr () \<and> multipart rq = Inl e \<longrightarrow>
      frames (res (handler jp rq (freshState d))) =
        [Progress ''Parsing upload'' [], ErrorFrame (errorMessage e)]"
    by (simp add: stream_eval)
  have lf: "req_method rq = ''POST'' \<and> ensureEnv rq = Inr () \<and> \<not> stagesSucceed jp rq d \<longrightarrow>
      isErrorFrame (last (frames (res (handler jp rq (freshState d)))))"
    using handler_last_frame[of rq jp d] by auto
  have ls: "req_method rq = ''POST'' \<and> ensureEnv rq = Inr () \<and> stagesSucceed jp rq d \<longrightarrow>
      isResultFrame (last (frames (res (handler jp rq (freshState d)))))"
    using handler_last_frame[of rq jp d] by auto
  from m k s r1 r2 r3 mp lf ls show ?thesis by blast
qed


text \<open>
  Claim C4, as the specification states it, has the empty roster and the missing audio
  file answered with a JSON error body and status 400, and never with a frame. A POST
  request with the credential set and no \<^verbatim>\<open>players\<close> field, and one with a player
  name and no audio part, each get status 200, the streaming headers, no JSON body, and
  the error as a frame after a progress frame.
\<close>

theorem handler_streams_validation_errors:
  "res (handler exampleParse (exampleRequest None 1024) (freshState emptyDisk)) =
     \<lparr>headers = streamHeaders, statusCode = 200, jsonBody = None,
      frames = [Progress ''Parsing upload'' [],
                ErrorFrame (Text ''At least one player name is required'')],
      writableEnded = True\<rparr> \<and>
   \<not> nonStreamedError 400
       (res (handler exampleParse (exampleRequest None 1024) (freshState emptyDisk))) \<and>
   res (handler exampleParse
          ((exampleRequest (Some (VString ''Mira'')) 1024)
             \<lparr>multipart := Inr \<lparr>fields_players = Some (VString ''Mira''),
                                 files_audio = None, files_file = None\<rparr>\<rparr>)
          (freshState emptyDisk)) =
     \<lparr>headers = streamHeaders, statusCode = 200, jsonBody = None,
      frames = [Progress ''Parsing upload'' [], ErrorFrame (Text ''Audio file is required'')],
      writableEnded = True\<rparr> \<and>
   \<not> nonStreamedError 400
       (res (handler exampleParse
               ((exampleRequest (Some (VString ''Mira'')) 1024)
                  \<lparr>multipart := Inr \<lparr>fields_players = Some (VString ''Mira''),
                                      files_audio = None, files_file = None\<rparr>\<rparr>)
               (freshState emptyDisk)))"
  by code_simp

text \<open>
  Seven requests: a GET; a POST without the credential; a POST without a \<^verbatim>\<open>players\<close>
  field; a POST whose only player name is a blank; a POST without an audio part; a POST
  whose transcription the service refuses; a POST for which every stage succeeds.
\<close>

theorem handler_failure_responses_witness:
  "res (handler exampleParse ((exampleRequest None 1024)\<lparr>req_method := ''GET''\<rparr>)
          (freshState emptyDisk)) =
     \<lparr>headers = [(''Allow'', ''POST'')], statusCode = 405,
      jsonBody = Some (Text ''Method not allowed''), frames = [], writableEnded = True\<rparr> \<and>
   res (handler exampleParse ((exampleRequest None 1024)\<lparr>OPENAI_KEY := None\<rparr>)
          (freshState emptyDisk)) =
     \<lparr>headers = [], statusCode = 500,
      jsonBody = Some (Text ''OPENAI_KEY is not configured''), frames = [],
      writableEnded = True\<rparr> \<and>
   statusCode (res (handler exampleParse (exampleRequest None 1024) (freshState emptyDisk))) = 200 \<and>
   jsonBody (res (handler exampleParse (exampleRequest None 1024) (freshState emptyDisk))) = None \<and>
   frames (res (handler exampleParse (exampleRequest None 1024) (freshState emptyDisk))) =
     [Progress ''Parsing upload'' [],
      ErrorFrame (Text ''At least one player name is required'')] \<and>
   frames (res (handler exampleParse (exampleRequest (Some (VString '' '')) 1024)
                  (freshState emptyDisk))) =
     [Progress ''Parsing upload'' [], ErrorFrame (Text ''Player names cannot be empty'')] \<and>
   frames (res (handler exampleParse
                  ((exampleRequest (Some (VString ''Mira'')) 1024)
                     \<lparr>multipart := Inr \<lparr>fields_players = Some (VString ''Mira''),
                                         files_audio = None, files_file = None\<rparr>\<rparr>)
                  (freshState emptyDisk))) =
     [Progress ''Parsing upload'' [], ErrorFrame (Text ''Audio file is required'')] \<and>
   \<not> stagesSucceed exampleParse
       ((exampleRequest (Some (VString ''Mira'')) 1024)
          \<lparr>transcription := Inl (Error ''upstream down'')\<rparr>) emptyDisk \<and>
   frames (res (handler exampleParse
                  ((exampleRequest (Some (VString ''Mira'')) 1024)
                     \<lparr>transcription := Inl (Error ''upstream down'')\<rparr>)
                  (freshState emptyDisk))) =
     [Progress ''Parsing upload'' [], Progress ''Preparing audio for transcription'' [],
      Progress ''Transcribing audio - this may take a while''
        [(''step'', VString ''transcription'')],
      ErrorFrame (Text ''upstream down'')] \<and>
   stagesSucceed exampleParse (exampleRequest (Some (VString ''Mira'')) 1024) emptyDisk \<and>
   isResultFrame
     (last (frames (res (handler exampleParse (exampleRequest (Some (VString ''Mira'')) 1024)
                           (freshState emptyDisk)))))"
proof -
  let ?audio = "Some (OneFile \<lparr>filepath = ''/tmp/upload_1'', originalFilename = Some ''voice.MP3'',
                              mimetype = Some ''audio/mpeg'', size_bytes = 1024\<rparr>)"
  let ?get = "(exampleRequest None 1024)\<lparr>req_method := ''GET''\<rparr>"
  have "req_method ?get \<noteq> ''POST''" by (simp add: exampleRequest_def)
  with handler_failure_responses[where rq = ?get and jp = exampleParse and d = emptyDisk]
  have c1: "res (handler exampleParse ?get (freshState emptyDisk)) =
     \<lparr>headers = [(''Allow'', ''POST'')], statusCode = 405,
      jsonBody = Some (Text ''Method not allowed''), frames = [], writableEnded = True\<rparr>"
    by blast
  let ?nokey = "(exampleRequest None 1024)\<lparr>OPENAI_KEY := None\<rparr>"
  have "req_method ?nokey = ''POST'' \<and> ensureEnv ?nokey \<noteq> Inr ()"
    by (simp add: exampleRequest_def ensureEnv_def)
  with handler_failure_responses[where rq = ?nokey and jp = exampleParse and d = emptyDisk]
  have c2: "res (handler exampleParse ?nokey (freshState emptyDisk)) =
     \<lparr>headers = [], statusCode = 500,
      jsonBody = Some (Text ''OPENAI_KEY is not configured''), frames = [],
      writableEnded = True\<rparr>"
    by blast
  let ?none = "exampleRequest None 1024"
  let ?fnone = "\<lparr>fields_players = None, files_audio = ?audio, files_file = None\<rparr>"
  have h3: "req_method ?none = ''POST'' \<and> ensureEnv ?none = Inr () \<and> multipart ?none = Inr ?fnone \<and>
      playerNamesOf exampleParse (fields_players ?fnone) = []"
    by (simp add: exampleRequest_def ensureEnv_def playerNamesOf_def)
  note t3 = handler_failure_responses[where rq = ?none and jp = exampleParse and d = emptyDisk
      and f = ?fnone]
  from t3 h3 have c3: "statusCode (res (handler exampleParse ?none (freshState emptyDisk))) = 200 \<and>
      jsonBody (res (handler exampleParse ?none (freshState emptyDisk))) = None"
    by blast
  from t3 h3 have c4: "frames (res (handler exampleParse ?none (freshState emptyDisk))) =
     [Progress ''Parsing upload'' [],
      ErrorFrame (Text ''At least one player name is required'')]"
    by blast
  let ?blank = "exampleRequest (Some (VString '' '')) 1024"
  let ?fblank = "\<lparr>fields_players = Some (VString '' ''), files_audio = ?audio, files_file = None\<rparr>"
  have h5: "req_method ?blank = ''POST'' \<and> ensureEnv ?blank = Inr () \<and>
      multipart ?blank = Inr ?fblank \<and>
      playerNamesOf exampleParse (fields_players ?fblank) \<noteq> [] \<and>
      cleanedPlayersOf (playerNamesOf exampleParse (fields_players ?fblank)) = Inr []"
    by (simp add: exampleRequest_def ensureEnv_def playerNamesOf_def cleanedPlayersOf_def
        exampleParse_def trim_def isWhiteSpace_def)
  with handler_failure_responses[where rq = ?blank and jp = exampleParse and d = emptyDisk
      and f = ?fblank]
  have c5: "frames (res (handler exampleParse ?blank (freshState emptyDisk))) =
     [Progress ''Parsing upload'' [], ErrorFrame (Text ''Player names cannot be empty'')]"
    by blast
  let ?fno = "\<lparr>fields_players = Some (VString ''Mira''), files_audio = None, files_file = None\<rparr>"
  let ?noaudio = "(exampleRequest (Some (VString ''Mira'')) 1024)\<lparr>multipart := Inr ?fno\<rparr>"
  have h6: "req_method ?noaudio = ''POST'' \<and> ensureEnv ?noaudio = Inr () \<and>
      multipart ?noaudio = Inr ?fno \<and>
      cleanedPlayersOf (playerNamesOf exampleParse (fields_players ?fno)) = Inr (''Mira'' # []) \<and>
      (audioFileOf ?fno = None \<or> (\<exists>a. audioFileOf ?fno = Some a \<and> filepath a = []))"
    by (simp add: exampleRequest_def ensureEnv_def playerNamesOf_def cleanedPlayersOf_def
        exampleParse_def trim_def isWhiteSpace_def audioFileOf_def)
  with handler_failure_responses[where rq = ?noaudio and jp = exampleParse and d = emptyDisk
      and f = ?fno and c = "''Mira''" and cs = "[]"]
  have c6: "frames (res (handler exampleParse ?noaudio (freshState emptyDisk))) =
     [Progress ''Parsing upload'' [], ErrorFrame (Text ''Audio file is required'')]"
    by blast
  let ?down = "(exampleRequest (Some (VString ''Mira'')) 1024)
                 \<lparr>transcription := Inl (Error ''upstream down'')\<rparr>"
  have h7: "req_method ?down = ''POST'' \<and> ensureEnv ?down = Inr ()"
    by (simp add: exampleRequest_def ensureEnv_def)
  have n7: "\<not> stagesSucceed exampleParse ?down emptyDisk" by code_simp
  from handler_failure_responses[where rq = ?down and jp = exampleParse and d = emptyDisk] h7 n7
  have c7: "isErrorFrame (last (frames (res (handler exampleParse ?down (freshState emptyDisk)))))"
    by blast
  have f7: "frames (res (handler exampleParse ?down (freshState emptyDisk))) =
     [Progress ''Parsing upload'' [], Progress ''Preparing audio for transcription'' [],
      Progress ''Transcribing audio - this may take a while''
        [(''step'', VString ''transcription'')],
      ErrorFrame (Text ''upstream down'')]"
    by code_simp
  let ?ok = "exampleRequest (Some (VString ''Mira'')) 1024"
  have h8: "req_method ?ok = ''POST'' \<and> ensureEnv ?ok = Inr ()"
    by (simp add: exampleRequest_def ensureEnv_def)
  have s8: "stagesSucceed exampleParse ?ok emptyDisk" by code_simp
  from handler_failure_responses[where rq = ?ok and jp = exampleParse and d = emptyDisk] h8 s8
  have c8: "isResultFrame (last (frames (res (handler exampleParse ?ok (freshState emptyDisk)))))"
    by blast
  from c1 c2 c3 c4 c5 c6 n7 c7 f7 s8 c8 show ?thesis by blast
qed



section \<open>Roster elements that are not strings\<close>

lemma trimAll_non_string:
  "\<exists>x\<in>set xs. \<forall>s. x \<noteq> VString s \<Longrightarrow> trimAll xs = Inl TypeError"
proof (induction xs rule: trimAll.induct)
  case 1
  then show ?case by simp
next
  case (2 p rest)
  then show ?case by simp
qed simp_all

text \<open>
  Claim C10: when the \<^verbatim>\<open>players\<close> field is a string that decodes to a JSON array
  with an element that is not a string, the array becomes the roster as it is, the trim
  step throws a TypeError, and the request ends with the engine's TypeError message in
  an error frame: none of the validation messages.
\<close>

theorem non_string_roster_element:
  assumes "req_method rq = ''POST''" and "ensureEnv rq = Inr ()"
    and "multipart rq = Inr f" and "fields_players f = Some (VString field)"
    and "jp field = Some (VArray xs)" and "\<exists>x\<in>set xs. \<forall>s. x \<noteq> VString s"
  shows "playerNamesOf jp (fields_players f) = xs \<and>
         cleanedPlayersOf xs = Inl TypeError \<and>
         res (handler jp rq (freshState d)) =
           \<lparr>headers = streamHeaders, statusCode = 200, jsonBody = None,
            frames = [Progress ''Parsing upload'' [], ErrorFrame (EngineMessage TypeError)],
            writableEnded = True\<rparr>"
proof -
  have p: "playerNamesOf jp (fields_players f) = xs"
    using assms(4,5) by (simp add: playerNamesOf_def)
  have c: "cleanedPlayersOf xs = Inl TypeError"
    using trimAll_non_string[OF assms(6)] by (simp add: cleanedPlayersOf_def)
  from assms(6) have ne: "xs \<noteq> []" by auto
  have "res (handler jp rq (freshState d)) =
           \<lparr>headers = streamHeaders, statusCode = 200, jsonBody = None,
            frames = [Progress ''Parsing upload'' [], ErrorFrame (EngineMessage TypeError)],
            writableEnded = True\<rparr>"
    using assms(1,2,3) p c ne by (simp add: stream_eval streamHeaders_def)
  with p c show ?thesis by blast
qed

text \<open>The \<^verbatim>\<open>players\<close> field \<^verbatim>\<open>[1,2]\<close>.\<close>

theorem non_string_roster_element_witness:
  "playerNamesOf exampleParse (Some (VString ''[1,2]'')) = [VNumber 1, VNumber 2] \<and>
   cleanedPlayersOf [VNumber 1, VNumber 2] = Inl TypeError \<and>
   res (handler exampleParse (exampleRequest (Some (VString ''[1,2]'')) 1024)
          (freshState emptyDisk)) =
     \<lparr>headers = streamHeaders, statusCode = 200, jsonBody = None,
      frames = [Progress ''Parsing upload'' [], ErrorFrame (EngineMessage TypeError)],
      writableEnded = True\<rparr>"
proof -
  let ?rq = "exampleRequest (Some (VString ''[1,2]'')) 1024"
  let ?f = "\<lparr>fields_players = Some (VString ''[1,2]''),
             files_audio = Some (OneFile \<lparr>filepath = ''/tmp/upload_1'',
               originalFilename = Some ''voice.MP3'', mimetype = Some ''audio/mpeg'',
               size_bytes = 1024\<rparr>),
             files_file = None\<rparr>"
  have h1: "req_method ?rq = ''POST''" by (simp add: exampleRequest_def)
  have h2: "ensureEnv ?rq = Inr ()" by (simp add: exampleRequest_def ensureEnv_def)
  have h3: "multipart ?rq = Inr ?f" by (simp add: exampleRequest_def)
  have h4: "fields_players ?f = Some (VString ''[1,2]'')" by simp
  have h5: "exampleParse ''[1,2]'' = Some (VArray [VNumber 1, VNumber 2])"
    by (simp add: exampleParse_def)
  have h6: "\<exists>x\<in>set [VNumber 1, VNumber 2]. \<forall>s. x \<noteq> VString s" by simp
  from non_string_roster_element[of ?rq ?f "''[1,2]''" exampleParse, OF h1 h2 h3 h4 h5 h6,
      of emptyDisk]
  show ?thesis by simp
qed


section \<open>The temp audio file\<close>

lemma append_dot_neq: "p @ CHR ''.'' # e \<noteq> p"
proof
  assume "p @ CHR ''.'' # e = p"
  then have "length (p @ CHR ''.'' # e) = length p" by simp
  then show False by simp
qed

lemma ensureExtension_moves:
  assumes "ensureExtensionOnPath a d0 = (Inr p, d1)"
  shows "p = filepath a \<or> files d1 (filepath a) = None"
  using assms append_dot_neq[of "filepath a" "resolvedExtension a"]
  by (auto simp: ensureExtensionOnPath_def Let_def fs_rename_def fs_copyFile_def fs_unlink_def
        unlinkQuietly_def
      split: if_splits option.splits)

text \<open>
  Claim C6: when a request passes the checks of the roster and of the audio part, the
  extension resolution returns a path, and the file at that path has size zero, then the
  request ends with the error frame \<^verbatim>\<open>Uploaded audio file is empty\<close>, no call to a
  service has been made, the last two operations on the storage are the \<^verbatim>\<open>stat\<close> and
  the \<^verbatim>\<open>unlink\<close> of the resolved path, and neither the resolved path nor the upload's
  first path holds a file afterwards.
\<close>

theorem empty_audio_fails_fast:
  assumes "req_method rq = ''POST''" and "ensureEnv rq = Inr ()"
    and "multipart rq = Inr f"
    and "cleanedPlayersOf (playerNamesOf jp (fields_players f)) = Inr (c # cs)"
    and "audioFileOf f = Some a" and "filepath a \<noteq> []"
    and "ensureExtensionOnPath a (storeUploads (uploads rq) d) = (Inr p, d1)"
    and "files d1 p = Some 0"
  shows "frames (res (handler jp rq (freshState d))) =
           [Progress ''Parsing upload'' [], Progress ''Preparing audio for transcription'' [],
            ErrorFrame (Text ''Uploaded audio file is empty'')] \<and>
         network (handler jp rq (freshState d)) = [] \<and>
         fslog (disk (handler jp rq (freshState d))) = fslog d1 @ [Stat p, Unlink p] \<and>
         files (disk (handler jp rq (freshState d))) p = None \<and>
         files (disk (handler jp rq (freshState d))) (filepath a) = None"
proof -
  have ne: "playerNamesOf jp (fields_players f) \<noteq> []"
    using assms(4) by (auto simp: cleanedPlayersOf_def)
  have t: "disk s = d1 \<Longrightarrow> transcribe rq p s =
      (Inl (Error ''Uploaded audio file is empty''),
       s\<lparr>disk := d1\<lparr>fslog := fslog d1 @ [Stat p, Unlink p], files := (files d1)(p := None)\<rparr>\<rparr>)"
    for s :: hstate
    using assms(8)
    by (simp add: transcribe_def transcribe_try_def fs_stat_def fs_unlink_def unlinkQuietly_def
        Let_def)
  have h: "handler jp rq (freshState d) =
      \<lparr>res = \<lparr>headers = streamHeaders, statusCode = 200, jsonBody = None,
              frames = [Progress ''Parsing upload'' [],
                        Progress ''Preparing audio for transcription'' [],
                        ErrorFrame (Text ''Uploaded audio file is empty'')],
              writableEnded = True\<rparr>,
       responseEnded = True,
       disk = d1\<lparr>fslog := fslog d1 @ [Stat p, Unlink p], files := (files d1)(p := None)\<rparr>,
       network = []\<rparr>"
    using assms(1-7) ne t by (simp add: stream_eval streamHeaders_def)
  from ensureExtension_moves[OF assms(7)]
  have "((files d1)(p := None)) (filepath a) = None" by auto
  with h show ?thesis by simp
qed

text \<open>
  A zero-byte upload named \<^verbatim>\<open>voice.MP3\<close>: it is renamed to
  \<^verbatim>\<open>/tmp/upload_1.mp3\<close>, found empty and removed.
\<close>

theorem empty_audio_fails_fast_witness:
  "fst (ensureExtensionOnPath
     \<lparr>filepath = ''/tmp/upload_1'', originalFilename = Some ''voice.MP3'',
      mimetype = Some ''audio/mpeg'', size_bytes = 0\<rparr>
     (storeUploads [(''/tmp/upload_1'', 0)] emptyDisk)) = Inr ''/tmp/upload_1.mp3'' \<and>
   frames (res (handler exampleParse (exampleRequest (Some (VString ''Mira'')) 0)
                  (freshState emptyDisk))) =
     [Progress ''Parsing upload'' [], Progress ''Preparing audio for transcription'' [],
      ErrorFrame (Text ''Uploaded audio file is empty'')] \<and>
   network (handler exampleParse (exampleRequest (Some (VString ''Mira'')) 0)
              (freshState emptyDisk)) = [] \<and>
   fslog (disk (handler exampleParse (exampleRequest (Some (VString ''Mira'')) 0)
                  (freshState emptyDisk))) =
     [Rename ''/tmp/upload_1'' ''/tmp/upload_1.mp3'', Stat ''/tmp/upload_1.mp3'',
      Unlink ''/tmp/upload_1.mp3''] \<and>
   files (disk (handler exampleParse (exampleRequest (Some (VString ''Mira'')) 0)
                  (freshState emptyDisk))) ''/tmp/upload_1.mp3'' = None \<and>
   files (disk (handler exampleParse (exampleRequest (Some (VString ''Mira'')) 0)
                  (freshState emptyDisk))) ''/tmp/upload_1'' = None"
proof -
  let ?rq = "exampleRequest (Some (VString ''Mira'')) 0"
  let ?a = "\<lparr>filepath = ''/tmp/upload_1'', originalFilename = Some ''voice.MP3'',
      mimetype = Some ''audio/mpeg'', size_bytes = 0\<rparr>"
  let ?f = "\<lparr>fields_players = Some (VString ''Mira''), files_audio = Some (OneFile ?a),
             files_file = None\<rparr>"
  let ?ens = "ensureExtensionOnPath ?a (storeUploads [(''/tmp/upload_1'', 0)] emptyDisk)"
  note ens_eval = ensureExtensionOnPath_def resolvedExtension_def extensionFromFilename_def
        extensionFromMime_def mimeTable_def inheritedProperties_def isAlnum_def toLowerCase_def
        toLowerCase_char_def endsWith_def fs_rename_def storeUploads_def emptyDisk_def Let_def
  have h1: "req_method ?rq = ''POST''" by (simp add: exampleRequest_def)
  have h2: "ensureEnv ?rq = Inr ()" by (simp add: exampleRequest_def ensureEnv_def)
  have h3: "multipart ?rq = Inr ?f" by (simp add: exampleRequest_def)
  have h4: "cleanedPlayersOf (playerNamesOf exampleParse (fields_players ?f)) = Inr (''Mira'' # [])"
    by (simp add: playerNamesOf_def cleanedPlayersOf_def exampleParse_def trim_def
        isWhiteSpace_def)
  have h5: "audioFileOf ?f = Some ?a" by (simp add: audioFileOf_def)
  have h6: "filepath ?a \<noteq> []" by simp
  have u: "uploads ?rq = [(''/tmp/upload_1'', 0)]" by (simp add: exampleRequest_def)
  have e: "fst ?ens = Inr ''/tmp/upload_1.mp3''" by (simp add: ens_eval)
  have l: "fslog (snd ?ens) = [Rename ''/tmp/upload_1'' ''/tmp/upload_1.mp3'']"
    by (simp add: ens_eval)
  have "?ens = (Inr ''/tmp/upload_1.mp3'', snd ?ens)"
    using e by (metis prod.collapse)
  then have h7: "ensureExtensionOnPath ?a (storeUploads (uploads ?rq) emptyDisk) =
      (Inr ''/tmp/upload_1.mp3'', snd ?ens)"
    using u by simp
  have h8: "files (snd ?ens) ''/tmp/upload_1.mp3'' = Some 0" by (simp add: ens_eval)
  from empty_audio_fails_fast[OF h1 h2 h3 h4 h5 h6 h7 h8] e l
  show ?thesis by simp
qed



text \<open>
  A request that succeeds, for comparison: the roster \<^verbatim>\<open>["Mira"," Tobo "]\<close> and an
  upload of five bytes. The upload is renamed, read and removed, and the result frame is
  the last frame.
\<close>

lemma handler_success_example:
  "res (handler exampleParse
          (exampleRequest (Some (VArray [VString ''Mira'', VString '' Tobo ''])) 5)
          (freshState emptyDisk)) =
     \<lparr>headers = streamHeaders, statusCode = 200, jsonBody = None,
      frames =
        [Progress ''Parsing upload'' [],
         Progress ''Preparing audio for transcription'' [],
         Progress ''Transcribing audio - this may take a while''
           [(''step'', VString ''transcription'')],
         Progress ''Transcription complete''
           [(''step'', VString ''transcription''), (''transcriptLength'', VNumber 29)],
         Progress ''Generating player summaries'' [(''step'', VString ''summaries'')],
         Progress ''Summaries ready''
           [(''step'', VString ''summaries''), (''summaryCount'', VNumber 2)],
         Result
           \<lparr>transcript = ''The party explored the ruins.'',
            dmSummary = ''The party explored the ruins.'',
            payload_summaries =
              [\<lparr>name = ''Mira'',
                points = [''Found a key'', ''Fought a wraith'', ''Opened the vault'']\<rparr>,
               \<lparr>name = ''Tobo'', points = [noSummaryText]\<rparr>]\<rparr>],
      writableEnded = True\<rparr> \<and>
   network (handler exampleParse
          (exampleRequest (Some (VArray [VString ''Mira'', VString '' Tobo ''])) 5)
          (freshState emptyDisk)) =
     [TranscriptionCall ''/tmp/upload_1.mp3'',
      CompletionCall [''Mira'', ''Tobo''] ''The party explored the ruins.''] \<and>
   fslog (disk (handler exampleParse
          (exampleRequest (Some (VArray [VString ''Mira'', VString '' Tobo ''])) 5)
          (freshState emptyDisk))) =
     [Rename ''/tmp/upload_1'' ''/tmp/upload_1.mp3'', Stat ''/tmp/upload_1.mp3'',
      Unlink ''/tmp/upload_1.mp3'']"
  by code_simp

text \<open>
  Claim C5 says the temp file of an upload is deleted whatever the outcome. The only
  \<^verbatim>\<open>unlink\<close> of the resolved path is in the \<^verbatim>\<open>finally\<close> of the transcription;
  a \<^verbatim>\<open>return\<close> after a failed check of the roster or the audio part, and a throw
  before the transcription, leave before it. For a request with a 1024-byte upload and
  a \<^verbatim>\<open>players\<close> field of three blanks, the request ends with the error frame
  \<^verbatim>\<open>Player names cannot be empty\<close>, no operation on the storage has been issued and
  the upload is still there.
\<close>

theorem temp_file_left_behind:
  "files (disk (handler exampleParse (exampleRequest (Some (VString ''   '')) 1024)
                  (freshState emptyDisk))) ''/tmp/upload_1'' = Some 1024 \<and>
   fslog (disk (handler exampleParse (exampleRequest (Some (VString ''   '')) 1024)
                  (freshState emptyDisk))) = [] \<and>
   frames (res (handler exampleParse (exampleRequest (Some (VString ''   '')) 1024)
                  (freshState emptyDisk))) =
     [Progress ''Parsing upload'' [], ErrorFrame (Text ''Player names cannot be empty'')]"
  by code_simp

end
